theory Spec2Isabelle
  imports Main "HOL-Library.Word" "HOL-Library.Signed_Division"
begin

unbundle bit_operations_syntax

section \<open>unistrap: the MBR kernel imager of \<^verbatim>\<open>unistrap.c\<close>\<close>

text \<open>
  The program opens a bootstrap file and a kernel file, creates the output file, and
  writes a packed header, the two payloads and a run of fill bytes. The embedding
  follows \<^verbatim>\<open>unistrap.c\<close> function by function. C's integer types are
  words of their width on the LP64 target the program is written for
  (\<^verbatim>\<open>uint16_t\<close> 16 bits, \<^verbatim>\<open>int\<close> 32 bits, \<^verbatim>\<open>size_t\<close> and
  \<^verbatim>\<open>off_t\<close> 64 bits), so every conversion that drops bits is visible.
  File descriptors and the results of system calls are plain integers.
\<close>

subsection \<open>Integer types, constants and the alignment macro\<close>

type_synonym byte = "8 word"
type_synonym uint16_t = "16 word"
type_synonym c_int = "32 word"
type_synonym size_t = "64 word"
type_synonym off_t = "64 word"
type_synonym path = string

text \<open>\<^verbatim>\<open>#define SECTOR_SIZE 0x200\<close> and \<^verbatim>\<open>#define MBR_END_OFFSET SECTOR_SIZE\<close>:
  integer constants, usable at every width.\<close>

definition SECTOR_SIZE :: "'a::len word" where
  "SECTOR_SIZE = 0x200"

definition MBR_END_OFFSET :: "'a::len word" where
  "MBR_END_OFFSET = SECTOR_SIZE"

text \<open>
  \<^verbatim>\<open>#define ALIGN_UP(value, align) (((value) + (align)-1) & ~((align)-1))\<close>.
  The macro computes at the type of \<^verbatim>\<open>value\<close> after the usual arithmetic
  conversions: at \<^verbatim>\<open>int\<close> for a promoted \<^verbatim>\<open>uint16_t\<close>, at \<^verbatim>\<open>size_t\<close>
  for a \<^verbatim>\<open>size_t\<close> (there the \<^verbatim>\<open>int\<close> mask \<^verbatim>\<open>~0x1ff\<close> is sign-extended,
  which is the 64-bit complement of \<^verbatim>\<open>0x1ff\<close>).
\<close>

definition ALIGN_UP :: "'a::len word \<Rightarrow> 'a word \<Rightarrow> 'a word" where
  "ALIGN_UP val align = (val + align - 1) AND NOT (align - 1)"

text \<open>Division of two \<^verbatim>\<open>int\<close>s: C truncates towards zero.\<close>

definition int_div :: "c_int \<Rightarrow> c_int \<Rightarrow> c_int" where
  "int_div a b = word_of_int (sint a sdiv sint b)"

subsection \<open>The image header\<close>

text \<open>\<^verbatim>\<open>struct image_header\<close>, declared \<^verbatim>\<open>__attribute__((packed))\<close>.\<close>

record image_header =
  hdr_size :: uint16_t
  sector_count :: uint16_t
  bootstrap_off :: off_t
  bootstrap_size :: size_t
  kernel_off :: off_t
  kernel_size :: size_t

text \<open>\<^verbatim>\<open>sizeof(struct image_header)\<close>: packed, so 2 + 2 + 8 + 8 + 8 + 8 bytes.\<close>

definition sizeof_hdr :: nat where
  "sizeof_hdr = 36"

text \<open>The object representation of the header that \<^verbatim>\<open>write(out_fd, &hdr, sizeof(hdr))\<close>
  reads: the fields in declaration order with no padding, each little-endian (the
  program targets x86).\<close>

fun le_bytes :: "nat \<Rightarrow> 'a::len word \<Rightarrow> byte list" where
  "le_bytes 0 v = []"
| "le_bytes (Suc n) v = ucast v # le_bytes n (drop_bit 8 v)"

definition hdr_bytes :: "image_header \<Rightarrow> byte list" where
  "hdr_bytes h =
     le_bytes 2 (hdr_size h) @ le_bytes 2 (sector_count h) @
     le_bytes 8 (bootstrap_off h) @ le_bytes 8 (bootstrap_size h) @
     le_bytes 8 (kernel_off h) @ le_bytes 8 (kernel_size h)"

text \<open>
  Lines 125 to 142 of \<^verbatim>\<open>generate\<close>: the assignments to \<^verbatim>\<open>hdr\<close>, in source order,
  from the two measured sizes. The first argument is the content of the uninitialised
  stack object \<^verbatim>\<open>hdr\<close> at entry; whatever the assignments do not overwrite stays.
  \<^verbatim>\<open>hdr.sector_count\<close> is a \<^verbatim>\<open>uint16_t\<close>: each of the three assignments to it
  converts its right-hand side to 16 bits.
\<close>

definition generate_hdr :: "image_header \<Rightarrow> size_t \<Rightarrow> size_t \<Rightarrow> image_header" where
  "generate_hdr hdr0 bs_sz k_sz =
    (let hdr = hdr0\<lparr>hdr_size := of_nat sizeof_hdr\<rparr>;
         \<comment> \<open>Initialize the bootstrap part of header\<close>
         hdr = hdr\<lparr>bootstrap_size := bs_sz\<rparr>;
         hdr = hdr\<lparr>bootstrap_off := MBR_END_OFFSET\<rparr>;
         \<comment> \<open>Initialize the kernel part of header\<close>
         hdr = hdr\<lparr>bootstrap_size := k_sz\<rparr>;
         hdr = hdr\<lparr>bootstrap_off := MBR_END_OFFSET + bs_sz\<rparr>;
         \<comment> \<open>Prepare the header size\<close>
         hdr = hdr\<lparr>sector_count := ucast ((ucast (hdr_size hdr) :: size_t) + k_sz + bs_sz)\<rparr>;
         hdr = hdr\<lparr>sector_count :=
                 ucast (ALIGN_UP (ucast (sector_count hdr) :: c_int) SECTOR_SIZE)\<rparr>;
         hdr = hdr\<lparr>sector_count :=
                 ucast (int_div (ucast (sector_count hdr) :: c_int) SECTOR_SIZE)\<rparr>
     in hdr)"

text \<open>Lines 159 to 161 of \<^verbatim>\<open>generate\<close>: the byte total, its aligned value and the
  number of fill bytes, all in \<^verbatim>\<open>size_t\<close>.\<close>

definition total_size :: "size_t \<Rightarrow> size_t \<Rightarrow> size_t" where
  "total_size bs_sz k_sz = k_sz + bs_sz + of_nat sizeof_hdr"

definition pad_size :: "size_t \<Rightarrow> size_t" where
  "pad_size total_sz = ALIGN_UP total_sz SECTOR_SIZE - total_sz"

subsection \<open>The operating system, as far as the program uses it\<close>

text \<open>
  The program talks to the system through \<^verbatim>\<open>open\<close>, \<^verbatim>\<open>lseek\<close>,
  \<^verbatim>\<open>mmap\<close>, \<^verbatim>\<open>write\<close>, \<^verbatim>\<open>munmap\<close>, \<^verbatim>\<open>close\<close>,
  \<^verbatim>\<open>perror\<close> and \<^verbatim>\<open>printf\<close>. The state of the system is passed explicitly:
  the regular files by path, the table of open descriptors, the live mappings, and a
  log of the calls made. What the environment may do to a call beyond its arguments
  (a full disk, an exhausted descriptor table, no memory for a mapping) is a fault
  oracle indexed by the number of calls made so far.
\<close>

datatype fault = NoFault | Fail | Short nat

datatype oflag = O_RDONLY | O_WRONLY_CREAT_TRUNC

datatype whence = SEEK_SET | SEEK_END

text \<open>A pointer returned by \<^verbatim>\<open>mmap\<close>: \<^verbatim>\<open>MAP_FAILED\<close>, or the region mapped;
  \<^verbatim>\<open>NULL\<close> is the value \<^verbatim>\<open>output_append\<close> compares with.\<close>

datatype pointer = NULL | MAP_FAILED | Region nat

text \<open>The buffer argument of \<^verbatim>\<open>write\<close>: an object of the program (its bytes), or
  a pointer obtained from \<^verbatim>\<open>mmap\<close>.\<close>

datatype buffer = Mem "byte list" | Mapped pointer

text \<open>One entry of the call log. A \<^verbatim>\<open>write\<close> is logged with the bytes the file
  received (none when it failed).\<close>

datatype event =
    EvOpen path oflag
  | EvLseek int whence
  | EvMmap int nat
  | EvWrite int "byte list"
  | EvMunmap nat
  | EvClose int

record ofile =
  of_path :: path
  of_pos :: nat
  of_wr :: bool

record world =
  files :: "path \<rightharpoonup> byte list"
  fdtab :: "ofile option list"
  maps :: "(path \<times> nat) option list"
  faults :: "nat \<Rightarrow> fault"
  trace :: "event list"
  stderr_log :: "string list"
  stdout_log :: "(size_t \<times> size_t) list"

text \<open>A table of slots (descriptors, mappings): a new entry takes the lowest free slot.\<close>

fun slot_alloc :: "'a option list \<Rightarrow> 'a \<Rightarrow> nat \<times> 'a option list" where
  "slot_alloc [] x = (0, [Some x])"
| "slot_alloc (None # t) x = (0, Some x # t)"
| "slot_alloc (Some y # t) x = (case slot_alloc t x of (n, t') \<Rightarrow> (Suc n, Some y # t'))"

definition slot_get :: "'a option list \<Rightarrow> nat \<Rightarrow> 'a option" where
  "slot_get t n = (if n < length t then t ! n else None)"

definition fd_get :: "world \<Rightarrow> int \<Rightarrow> ofile option" where
  "fd_get w fd = (if fd < 0 then None else slot_get (fdtab w) (nat fd))"

definition next_fault :: "world \<Rightarrow> fault" where
  "next_fault w = faults w (length (trace w))"

definition log_call :: "event \<Rightarrow> world \<Rightarrow> world" where
  "log_call e w = w\<lparr>trace := trace w @ [e]\<rparr>"

text \<open>\<^verbatim>\<open>open(path, O_RDONLY)\<close> and \<^verbatim>\<open>open(path, O_WRONLY | O_CREAT | O_TRUNC, 0666)\<close>:
  the new descriptor, or -1. Reading needs the file to exist; writing creates it or
  empties it.\<close>

definition sys_open :: "path \<Rightarrow> oflag \<Rightarrow> world \<Rightarrow> int \<times> world" where
  "sys_open p fl w =
    (let w1 = log_call (EvOpen p fl) w in
     if next_fault w \<noteq> NoFault then (- 1, w1)
     else (case fl of
        O_RDONLY \<Rightarrow>
          (case files w p of
             None \<Rightarrow> (- 1, w1)
           | Some c \<Rightarrow>
               (case slot_alloc (fdtab w) \<lparr>of_path = p, of_pos = 0, of_wr = False\<rparr> of
                  (n, t) \<Rightarrow> (int n, w1\<lparr>fdtab := t\<rparr>)))
      | O_WRONLY_CREAT_TRUNC \<Rightarrow>
          (case slot_alloc (fdtab w) \<lparr>of_path = p, of_pos = 0, of_wr = True\<rparr> of
             (n, t) \<Rightarrow> (int n, w1\<lparr>fdtab := t, files := (files w)(p \<mapsto> [])\<rparr>))))"

definition sys_close :: "int \<Rightarrow> world \<Rightarrow> int \<times> world" where
  "sys_close fd w =
    (let w1 = log_call (EvClose fd) w in
     case fd_get w fd of
       None \<Rightarrow> (- 1, w1)
     | Some f \<Rightarrow> (0, w1\<lparr>fdtab := (fdtab w)[nat fd := None]\<rparr>))"

text \<open>\<^verbatim>\<open>lseek(fd, off, whence)\<close>: the new offset as an \<^verbatim>\<open>off_t\<close>, or -1 (a bad
  descriptor, or an offset that does not fit the signed 64 bits).\<close>

definition sys_lseek :: "int \<Rightarrow> nat \<Rightarrow> whence \<Rightarrow> world \<Rightarrow> off_t \<times> world" where
  "sys_lseek fd off wh w =
    (let w1 = log_call (EvLseek fd wh) w in
     case fd_get w fd of
       None \<Rightarrow> (- 1, w1)
     | Some f \<Rightarrow>
         (case files w (of_path f) of
            None \<Rightarrow> (- 1, w1)
          | Some c \<Rightarrow>
              (let pos = (case wh of SEEK_SET \<Rightarrow> off | SEEK_END \<Rightarrow> length c + off) in
               if pos < 2 ^ 63
               then (of_nat pos, w1\<lparr>fdtab := (fdtab w)[nat fd := Some (f\<lparr>of_pos := pos\<rparr>)]\<rparr>)
               else (- 1, w1))))"

text \<open>\<^verbatim>\<open>mmap(NULL, len, PROT_READ, MAP_SHARED, fd, 0)\<close>: a zero length is an error
  (\<^verbatim>\<open>EINVAL\<close>); every failure returns \<^verbatim>\<open>MAP_FAILED\<close>, and a mapping the
  system places itself is never at address 0.\<close>

definition sys_mmap :: "nat \<Rightarrow> int \<Rightarrow> world \<Rightarrow> pointer \<times> world" where
  "sys_mmap len fd w =
    (let w1 = log_call (EvMmap fd len) w in
     if len = 0 \<or> next_fault w \<noteq> NoFault then (MAP_FAILED, w1)
     else (case fd_get w fd of
        None \<Rightarrow> (MAP_FAILED, w1)
      | Some f \<Rightarrow>
          (case slot_alloc (maps w) (of_path f, len) of
             (i, m) \<Rightarrow> (Region i, w1\<lparr>maps := m\<rparr>))))"

definition sys_munmap :: "pointer \<Rightarrow> nat \<Rightarrow> world \<Rightarrow> int \<times> world" where
  "sys_munmap p len w =
    (let w1 = log_call (EvMunmap len) w in
     case p of
       Region i \<Rightarrow>
         (case slot_get (maps w) i of
            None \<Rightarrow> (- 1, w1)
          | Some r \<Rightarrow> (0, w1\<lparr>maps := (maps w)[i := None]\<rparr>))
     | _ \<Rightarrow> (- 1, w1))"

text \<open>The \<open>len\<close> bytes a \<^verbatim>\<open>write\<close> reads from its buffer, when they are all
  readable: from an object of the program, or through a live shared mapping from the
  file behind it.\<close>

definition buf_bytes :: "world \<Rightarrow> buffer \<Rightarrow> nat \<Rightarrow> byte list option" where
  "buf_bytes w b len =
    (case b of
       Mem bs \<Rightarrow> (if len \<le> length bs then Some (take len bs) else None)
     | Mapped p \<Rightarrow>
         (case p of
            Region i \<Rightarrow>
              (case slot_get (maps w) i of
                 None \<Rightarrow> None
               | Some (q, mlen) \<Rightarrow>
                   (case files w q of
                      None \<Rightarrow> None
                    | Some c \<Rightarrow>
                        if len \<le> mlen \<and> len \<le> length c then Some (take len c) else None))
          | _ \<Rightarrow> None))"

text \<open>Storing \<open>d\<close> at offset \<open>pos\<close> of a file with content \<open>c\<close> (a gap is
  filled with zero bytes).\<close>

definition store_at :: "byte list \<Rightarrow> nat \<Rightarrow> byte list \<Rightarrow> byte list" where
  "store_at c pos d = take pos c @ replicate (pos - length c) 0 @ d @ drop (pos + length d) c"

text \<open>\<^verbatim>\<open>write(fd, buf, len)\<close>: the number of bytes written, or -1. The oracle may
  fail the call or cut it short.\<close>

definition sys_write :: "int \<Rightarrow> buffer \<Rightarrow> nat \<Rightarrow> world \<Rightarrow> int \<times> world" where
  "sys_write fd b len w =
    (let failed = (- 1, log_call (EvWrite fd []) w) in
     case fd_get w fd of
       None \<Rightarrow> failed
     | Some f \<Rightarrow>
         if \<not> of_wr f then failed
         else (case files w (of_path f) of
            None \<Rightarrow> failed
          | Some c \<Rightarrow>
              (case buf_bytes w b len of
                 None \<Rightarrow> (if len = 0 then (0, log_call (EvWrite fd []) w) else failed)
               | Some bs \<Rightarrow>
                   (case next_fault w of
                      Fail \<Rightarrow> failed
                    | ft \<Rightarrow>
                        (let d = (case ft of Short m \<Rightarrow> take m bs | _ \<Rightarrow> bs) in
                         (int (length d),
                          (log_call (EvWrite fd d) w)
                            \<lparr>files := (files w)(of_path f \<mapsto> store_at c (of_pos f) d),
                             fdtab := (fdtab w)[nat fd :=
                                         Some (f\<lparr>of_pos := of_pos f + length d\<rparr>)]\<rparr>))))))"

text \<open>\<^verbatim>\<open>perror(tag)\<close>: one line on the standard error, recorded by its tag.\<close>

definition perror :: "string \<Rightarrow> world \<Rightarrow> world" where
  "perror tag w = w\<lparr>stderr_log := stderr_log w @ [tag]\<rparr>"

text \<open>\<^verbatim>\<open>printf("[*] Wrote %zu bytes, padded to %zu bytes\n", total_sz, pad_sz)\<close>,
  recorded by its two arguments.\<close>

definition printf_wrote :: "size_t \<Rightarrow> size_t \<Rightarrow> world \<Rightarrow> world" where
  "printf_wrote total_sz pad_sz w = w\<lparr>stdout_log := stdout_log w @ [(total_sz, pad_sz)]\<rparr>"

text \<open>\<^verbatim>\<open>memset(pad, c, n)\<close> on a buffer of \<open>cap\<close> bytes: the \<open>n\<close> bytes it
  set, or nothing when \<open>n\<close> exceeds the buffer (a write out of bounds).\<close>

definition memset :: "nat \<Rightarrow> byte \<Rightarrow> nat \<Rightarrow> byte list option" where
  "memset cap c n = (if n \<le> cap then Some (replicate n c) else None)"

subsection \<open>The program\<close>

text \<open>The run-time parameters, set by \<^verbatim>\<open>main\<close> from the command line.\<close>

record config =
  output_file :: path
  bootstrap_path :: path
  kernel_path :: path

text \<open>What ends a run outside the C semantics: a write beyond the 512 bytes of
  \<^verbatim>\<open>pad\<close>.\<close>

datatype crash = PadOverflow

definition output_append :: "int \<Rightarrow> int \<Rightarrow> size_t \<Rightarrow> world \<Rightarrow> int \<times> world" where
  "output_append out_fd in_fd sz w =
    (case sys_mmap (unat sz) in_fd w of
       (data, w) \<Rightarrow>
         if data = NULL then (- 1, perror ''mmap'' w)
         else (case sys_write out_fd (Mapped data) (unat sz) w of
            (r, w) \<Rightarrow>
              (case sys_munmap data (unat sz) w of
                 (r', w) \<Rightarrow> (0, w))))"

text \<open>The three \<^verbatim>\<open>close\<close> calls that end \<^verbatim>\<open>generate\<close> after the output file is open.\<close>

definition close_all :: "int \<Rightarrow> int \<Rightarrow> int \<Rightarrow> world \<Rightarrow> world" where
  "close_all out_fd bs_fd k_fd w =
     snd (sys_close k_fd (snd (sys_close bs_fd (snd (sys_close out_fd w)))))"

text \<open>Lines 159 to 177 of \<^verbatim>\<open>generate\<close>: the fill bytes, the report and the release.\<close>

definition generate_pad :: "int \<Rightarrow> int \<Rightarrow> int \<Rightarrow> size_t \<Rightarrow> size_t \<Rightarrow> world
    \<Rightarrow> crash + (int \<times> world)" where
  "generate_pad out_fd bs_fd k_fd bs_sz k_sz w =
    (let total_sz = total_size bs_sz k_sz;
         pad_sz = pad_size total_sz
     in if pad_sz > 0
        then (case memset 512 0xEE (unat pad_sz) of
                None \<Rightarrow> Inl PadOverflow
              | Some pad \<Rightarrow>
                  (case sys_write out_fd (Mem pad) (unat pad_sz) w of
                     (r, w) \<Rightarrow>
                       Inr (0, close_all out_fd bs_fd k_fd (printf_wrote total_sz pad_sz w))))
        else Inr (0, close_all out_fd bs_fd k_fd (printf_wrote total_sz pad_sz w)))"

text \<open>Lines 125 to 157 of \<^verbatim>\<open>generate\<close>, entered with the three descriptors open:
  the sizes are measured, the header is built and written, the payloads are appended.\<close>

definition generate_body :: "image_header \<Rightarrow> int \<Rightarrow> int \<Rightarrow> int \<Rightarrow> world
    \<Rightarrow> crash + (int \<times> world)" where
  "generate_body hdr0 out_fd bs_fd k_fd w =
    (case sys_lseek bs_fd 0 SEEK_END w of (bs_sz, w) \<Rightarrow>
     case sys_lseek bs_fd 0 SEEK_SET w of (r, w) \<Rightarrow>
     case sys_lseek k_fd 0 SEEK_END w of (k_sz, w) \<Rightarrow>
     case sys_lseek k_fd 0 SEEK_SET w of (r, w) \<Rightarrow>
     let hdr = generate_hdr hdr0 bs_sz k_sz in
     case sys_write out_fd (Mem (hdr_bytes hdr)) sizeof_hdr w of (r, w) \<Rightarrow>
     case output_append out_fd bs_fd bs_sz w of (r, w) \<Rightarrow>
     if r < 0 then Inr (- 1, close_all out_fd bs_fd k_fd w)
     else
     case output_append out_fd k_fd k_sz w of (r, w) \<Rightarrow>
     if r < 0 then Inr (- 1, close_all out_fd bs_fd k_fd w)
     else generate_pad out_fd bs_fd k_fd bs_sz k_sz w)"

text \<open>\<^verbatim>\<open>generate\<close>. The header argument is the uninitialised content of \<^verbatim>\<open>hdr\<close>.\<close>

definition generate :: "config \<Rightarrow> image_header \<Rightarrow> world \<Rightarrow> crash + (int \<times> world)" where
  "generate cfg hdr0 w =
    (case sys_open (bootstrap_path cfg) O_RDONLY w of (bs_fd, w) \<Rightarrow>
     if bs_fd < 0 then Inr (- 1, perror ''open[bs]'' w)
     else
     case sys_open (kernel_path cfg) O_RDONLY w of (k_fd, w) \<Rightarrow>
     if k_fd < 0 then Inr (- 1, snd (sys_close bs_fd w))
     else
     case sys_open (output_file cfg) O_WRONLY_CREAT_TRUNC w of (out_fd, w) \<Rightarrow>
     if out_fd < 0
     then Inr (- 1, snd (sys_close k_fd (snd (sys_close bs_fd (perror ''open[out]'' w)))))
     else generate_body hdr0 out_fd bs_fd k_fd w)"

subsection \<open>What a run holds\<close>

text \<open>The occupied slots of a table, in increasing order; the descriptors that are
  open and the mappings that are live in a state of the system.\<close>

definition live_slots :: "'a option list \<Rightarrow> nat list" where
  "live_slots t = filter (\<lambda>n. t ! n \<noteq> None) [0..<length t]"

definition open_fds :: "world \<Rightarrow> nat list" where
  "open_fds w = live_slots (fdtab w)"

definition live_maps :: "world \<Rightarrow> nat list" where
  "live_maps w = live_slots (maps w)"

text \<open>The byte blocks the files received through \<^verbatim>\<open>write\<close>, in call order.\<close>

fun written :: "event list \<Rightarrow> byte list list" where
  "written [] = []"
| "written (EvWrite fd d # es) = d # written es"
| "written (e # es) = written es"

subsection \<open>Sample runs\<close>

text \<open>A command line \<^verbatim>\<open>unistrap -b boot.bin -k kernel.bin\<close> (the output path keeps its
  default), a file system that holds the two sources, and a stack object \<^verbatim>\<open>hdr\<close>
  whose bytes at entry are all \<^verbatim>\<open>0xAA\<close>.\<close>

definition demo_cfg :: config where
  "demo_cfg = \<lparr>output_file = ''kernel.img'', bootstrap_path = ''boot.bin'',
                kernel_path = ''kernel.bin''\<rparr>"

definition demo_world :: "byte list \<Rightarrow> byte list \<Rightarrow> world" where
  "demo_world bs ks =
     \<lparr>files = [''boot.bin'' \<mapsto> bs, ''kernel.bin'' \<mapsto> ks], fdtab = [], maps = [],
      faults = (\<lambda>n. NoFault), trace = [], stderr_log = [], stdout_log = []\<rparr>"

definition demo_hdr0 :: image_header where
  "demo_hdr0 = \<lparr>hdr_size = 0xAAAA, sector_count = 0xAAAA,
                 bootstrap_off = 0xAAAAAAAAAAAAAAAA, bootstrap_size = 0xAAAAAAAAAAAAAAAA,
                 kernel_off = 0xAAAAAAAAAAAAAAAA, kernel_size = 0xAAAAAAAAAAAAAAAA\<rparr>"

subsection \<open>Slot tables and what each call does to them\<close>

lemma slot_get_Nil [simp]: "slot_get [] n = None"
  by (simp add: slot_get_def)

lemma slot_get_Cons: "slot_get (a # t) n = (case n of 0 \<Rightarrow> a | Suc m \<Rightarrow> slot_get t m)"
  by (simp add: slot_get_def split: nat.split)

lemma slot_get_update:
  "slot_get (t[n := v]) m = (if m = n \<and> n < length t then v else slot_get t m)"
  by (auto simp: slot_get_def)

lemma slot_get_Some_length: "slot_get t n = Some x \<Longrightarrow> n < length t"
  by (simp add: slot_get_def split: if_splits)

lemma slot_alloc_get:
  "slot_alloc t x = (n, t') \<Longrightarrow>
     slot_get t n = None \<and> slot_get t' = (slot_get t)(n \<mapsto> x)"
proof (induction t x arbitrary: n t' rule: slot_alloc.induct)
  case (1 x)
  then show ?case by (auto simp: slot_get_Cons fun_eq_iff split: nat.split)
next
  case (2 t x)
  then show ?case by (auto simp: slot_get_Cons fun_eq_iff split: nat.split)
next
  case (3 y t x)
  obtain k u where a: "slot_alloc t x = (k, u)" by (cases "slot_alloc t x")
  from "3.IH" [OF a] have ih: "slot_get t k = None" "slot_get u = (slot_get t)(k \<mapsto> x)"
    by auto
  from "3.prems" a have n: "n = Suc k" and t': "t' = Some y # u" by simp_all
  show ?case unfolding n t' using ih
    by (auto simp: slot_get_Cons fun_eq_iff split: nat.split)
qed

lemma dom_slot_update_None:
  "dom (slot_get (t[n := None])) = dom (slot_get t) - {n}"
  by (auto simp: slot_get_update dom_def split: if_splits dest: slot_get_Some_length)

lemma dom_slot_update_Some:
  "slot_get t n = Some x \<Longrightarrow> dom (slot_get (t[n := Some y])) = dom (slot_get t)"
  by (auto simp: slot_get_update dom_def dest: slot_get_Some_length)

lemma sys_open_dom:
  assumes "sys_open p fl w = (fd, w')"
  shows "maps w' = maps w \<and>
         (fd = - 1 \<and> fdtab w' = fdtab w \<or>
          0 \<le> fd \<and> nat fd \<notin> dom (slot_get (fdtab w)) \<and>
          dom (slot_get (fdtab w')) = insert (nat fd) (dom (slot_get (fdtab w))))"
proof -
  obtain x where x: "x = \<lparr>of_path = p, of_pos = 0, of_wr = (fl = O_WRONLY_CREAT_TRUNC)\<rparr>" by simp
  obtain n t where a: "slot_alloc (fdtab w) x = (n, t)" by (cases "slot_alloc (fdtab w) x")
  note g = slot_alloc_get [OF a]
  from g have d: "n \<notin> dom (slot_get (fdtab w))" "dom (slot_get t) = insert n (dom (slot_get (fdtab w)))"
    by auto
  have "fd = - 1 \<and> fdtab w' = fdtab w \<and> maps w' = maps w \<or>
        fd = int n \<and> fdtab w' = t \<and> maps w' = maps w"
    using assms a unfolding x
    by (auto simp: sys_open_def log_call_def Let_def split: if_splits oflag.splits option.splits)
  then show ?thesis
  proof (elim disjE conjE)
    assume "fd = - 1" "fdtab w' = fdtab w" "maps w' = maps w"
    then show ?thesis by simp
  next
    assume "fd = int n" "fdtab w' = t" "maps w' = maps w"
    with d show ?thesis by simp
  qed
qed

lemma sys_close_dom:
  "0 \<le> fd \<Longrightarrow>
     maps (snd (sys_close fd w)) = maps w \<and>
     dom (slot_get (fdtab (snd (sys_close fd w)))) = dom (slot_get (fdtab w)) - {nat fd}"
  by (simp add: sys_close_def log_call_def Let_def fd_get_def dom_slot_update_None
      split: option.splits) (auto dest: slot_get_Some_length)

lemma sys_lseek_dom:
  "maps (snd (sys_lseek fd off wh w)) = maps w \<and>
   dom (slot_get (fdtab (snd (sys_lseek fd off wh w)))) = dom (slot_get (fdtab w))"
  by (simp add: sys_lseek_def log_call_def Let_def fd_get_def dom_slot_update_Some
      split: option.splits)

lemma sys_write_dom:
  "maps (snd (sys_write fd b len w)) = maps w \<and>
   dom (slot_get (fdtab (snd (sys_write fd b len w)))) = dom (slot_get (fdtab w))"
  by (simp add: sys_write_def log_call_def Let_def fd_get_def dom_slot_update_Some
      split: option.splits fault.splits)

lemma sys_mmap_dom:
  assumes "sys_mmap len fd w = (p, w')"
  shows "fdtab w' = fdtab w \<and>
         (p = MAP_FAILED \<and> maps w' = maps w \<or>
          (\<exists>i. p = Region i \<and> i \<notin> dom (slot_get (maps w)) \<and>
            dom (slot_get (maps w')) = insert i (dom (slot_get (maps w)))))"
proof (cases "fd_get w fd")
  case None
  with assms show ?thesis by (auto simp: sys_mmap_def log_call_def Let_def split: if_splits)
next
  case (Some f)
  obtain i m where a: "slot_alloc (maps w) (of_path f, len) = (i, m)"
    by (cases "slot_alloc (maps w) (of_path f, len)")
  from slot_alloc_get [OF a]
  have d: "i \<notin> dom (slot_get (maps w))" "dom (slot_get m) = insert i (dom (slot_get (maps w)))"
    by auto
  show ?thesis using assms Some a d
    by (auto simp: sys_mmap_def log_call_def Let_def split: if_splits)
qed

lemma sys_munmap_dom:
  "fdtab (snd (sys_munmap p len w)) = fdtab w \<and>
   dom (slot_get (maps (snd (sys_munmap p len w)))) =
     (case p of Region i \<Rightarrow> dom (slot_get (maps w)) - {i} | _ \<Rightarrow> dom (slot_get (maps w)))"
  by (simp add: sys_munmap_def log_call_def Let_def dom_slot_update_None
      split: option.splits pointer.splits) auto

lemma output_append_dom:
  assumes "output_append out_fd in_fd sz w = (r, w')"
  shows "r = 0 \<and> dom (slot_get (maps w')) = dom (slot_get (maps w)) \<and>
         dom (slot_get (fdtab w')) = dom (slot_get (fdtab w)) \<and> stderr_log w' = stderr_log w"
proof -
  obtain p w1 where m: "sys_mmap (unat sz) in_fd w = (p, w1)" by (cases "sys_mmap (unat sz) in_fd w")
  obtain r2 w2 where wr: "sys_write out_fd (Mapped p) (unat sz) w1 = (r2, w2)"
    by (cases "sys_write out_fd (Mapped p) (unat sz) w1")
  obtain r3 w3 where u: "sys_munmap p (unat sz) w2 = (r3, w3)"
    by (cases "sys_munmap p (unat sz) w2")
  note a = sys_mmap_dom [OF m]
  have b: "maps w2 = maps w1" "dom (slot_get (fdtab w2)) = dom (slot_get (fdtab w1))"
    using sys_write_dom [of out_fd "Mapped p" "unat sz" w1] wr by simp_all
  have c: "fdtab w3 = fdtab w2"
    "dom (slot_get (maps w3)) =
      (case p of Region i \<Rightarrow> dom (slot_get (maps w2)) - {i} | _ \<Rightarrow> dom (slot_get (maps w2)))"
    using sys_munmap_dom [of p "unat sz" w2] u by simp_all
  from a have nn: "p \<noteq> NULL" by auto
  have e: "stderr_log w3 = stderr_log w"
    using m wr u
    by (auto simp: sys_mmap_def sys_write_def sys_munmap_def log_call_def Let_def
        split: option.splits pointer.splits if_splits fault.splits prod.splits)
  from assms m wr u nn have r: "r = 0" "w' = w3"
    by (auto simp: output_append_def)
  from a b c show ?thesis unfolding r using e by auto
qed

subsection \<open>A write that appends, and the copy of one source\<close>

lemma length_le_bytes [simp]: "length (le_bytes n v) = n"
  by (induction n arbitrary: v) simp_all

lemma length_hdr_bytes [simp]: "length (hdr_bytes h) = 36"
  by (simp add: hdr_bytes_def)

lemma store_at_end: "pos = length c \<Longrightarrow> store_at c pos d = c @ d"
  by (simp add: store_at_def)

lemma sys_write_ok:
  assumes "0 \<le> fd" "slot_get (fdtab w) (nat fd) = Some f" "of_wr f"
    "files w (of_path f) = Some c" "of_pos f = length c"
    "buf_bytes w b len = Some d" "next_fault w = NoFault"
  shows "sys_write fd b len w =
    (int (length d),
     w\<lparr>trace := trace w @ [EvWrite fd d], files := (files w)(of_path f \<mapsto> c @ d),
       fdtab := (fdtab w)[nat fd := Some (f\<lparr>of_pos := length c + length d\<rparr>)]\<rparr>)"
  using assms by (simp add: sys_write_def fd_get_def log_call_def store_at_end)

lemma sys_write_empty:
  assumes "0 \<le> fd" "slot_get (fdtab w) (nat fd) = Some f" "of_wr f"
    "files w (of_path f) = Some c" "buf_bytes w b 0 = None"
  shows "sys_write fd b 0 w = (0, w\<lparr>trace := trace w @ [EvWrite fd []]\<rparr>)"
  using assms by (simp add: sys_write_def fd_get_def log_call_def)

lemma output_append_ok:
  assumes fd: "0 \<le> ofd" "0 \<le> ifd"
    and i: "slot_get (fdtab w) (nat ifd) = Some fi" "files w (of_path fi) = Some c"
    and o: "slot_get (fdtab w) (nat ofd) = Some fo" "of_wr fo"
      "files w (of_path fo) = Some oc" "of_pos fo = length oc"
    and nf: "faults w = (\<lambda>_. NoFault)"
    and sz: "unat sz = length c"
  shows "\<exists>w'. output_append ofd ifd sz w = (0, w') \<and>
      files w' = (files w)(of_path fo \<mapsto> oc @ c) \<and>
      trace w' = trace w @ [EvMmap ifd (length c), EvWrite ofd c, EvMunmap (length c)] \<and>
      fdtab w' = (fdtab w)[nat ofd := Some (fo\<lparr>of_pos := length oc + length c\<rparr>)] \<and>
      faults w' = faults w \<and> stderr_log w' = stderr_log w \<and> stdout_log w' = stdout_log w"
proof (cases "c = []")
  case True
  have m: "sys_mmap 0 ifd w = (MAP_FAILED, w\<lparr>trace := trace w @ [EvMmap ifd 0]\<rparr>)"
    by (simp add: sys_mmap_def log_call_def)
  let ?w1 = "w\<lparr>trace := trace w @ [EvMmap ifd 0]\<rparr>"
  have wr: "sys_write ofd (Mapped MAP_FAILED) 0 ?w1 = (0, ?w1\<lparr>trace := trace ?w1 @ [EvWrite ofd []]\<rparr>)"
    by (rule sys_write_empty [where f = fo and c = oc]) (use fd o in \<open>simp_all add: buf_bytes_def\<close>)
  have l: "(fdtab w)[nat ofd := Some fo] = fdtab w"
    using o(1) by (simp add: slot_get_def list_update_same_conv split: if_splits)
  have f: "(files w)(of_path fo \<mapsto> oc) = files w"
    using o(3) by (simp add: fun_upd_idem)
  have fo': "fo\<lparr>of_pos := length oc\<rparr> = fo"
    unfolding o(4) [symmetric] by simp
  show ?thesis
    using True sz m wr l f fo'
    by (simp add: output_append_def sys_munmap_def log_call_def)
next
  case False
  then have len: "length c \<noteq> 0" by simp
  obtain k m where a: "slot_alloc (maps w) (of_path fi, length c) = (k, m)"
    by (cases "slot_alloc (maps w) (of_path fi, length c)")
  from slot_alloc_get [OF a] have g: "slot_get m k = Some (of_path fi, length c)" by simp
  let ?w1 = "w\<lparr>trace := trace w @ [EvMmap ifd (length c)], maps := m\<rparr>"
  have m: "sys_mmap (length c) ifd w = (Region k, ?w1)"
    using len fd i a nf by (simp add: sys_mmap_def log_call_def fd_get_def next_fault_def)
  have bb: "buf_bytes ?w1 (Mapped (Region k)) (length c) = Some c"
    using g i by (simp add: buf_bytes_def)
  have wr: "sys_write ofd (Mapped (Region k)) (length c) ?w1 =
    (int (length c),
     ?w1\<lparr>trace := trace ?w1 @ [EvWrite ofd c], files := (files ?w1)(of_path fo \<mapsto> oc @ c),
       fdtab := (fdtab ?w1)[nat ofd := Some (fo\<lparr>of_pos := length oc + length c\<rparr>)]\<rparr>)"
    by (rule sys_write_ok) (use fd o nf bb in \<open>simp_all add: next_fault_def\<close>)
  show ?thesis
    using sz m wr g
    by (simp add: output_append_def sys_munmap_def log_call_def split: option.splits)
qed

subsection \<open>The fill count\<close>

lemma and_not_mask_minus: "(u::'a::len word) AND NOT (mask n) = u - take_bit n u"
proof -
  have "u - take_bit n u = u AND NOT (take_bit n u)"
    by (rule disjunctive_diff_eq_and_not) (rule bit_eqI, auto simp: bit_simps)
  also have "\<dots> = u AND NOT (mask n)"
    by (rule bit_eqI) (auto simp: bit_simps)
  finally show ?thesis by simp
qed

lemma pad_size_eq: "pad_size t = 511 - take_bit 9 (t + 511)"
proof -
  have m: "(0x200 - 1 :: size_t) = mask 9" by (simp add: mask_eq_exp_minus_1)
  have "pad_size t = ((t + 511) AND NOT (mask 9)) - t"
    unfolding pad_size_def ALIGN_UP_def SECTOR_SIZE_def m by (simp add: ac_simps)
  also have "\<dots> = 511 - take_bit 9 (t + 511)"
    by (simp add: and_not_mask_minus)
  finally show ?thesis .
qed

lemma unat_pad_size: "unat (pad_size t) = 511 - (unat t + 511) mod 512"
proof -
  have a: "unat (t + 511) = (unat t + 511) mod 2 ^ 64"
    by (simp add: unat_word_ariths)
  have d: "(512::nat) dvd 2 ^ 64" by simp
  have "unat (take_bit 9 (t + 511)) = unat (t + 511) mod 2 ^ 9"
    by (subst unsigned_take_bit_eq) (rule take_bit_eq_mod)
  also have "\<dots> = (unat t + 511) mod 512"
    unfolding a using mod_mod_cancel [OF d] by simp
  finally have tb: "unat (take_bit 9 (t + 511)) = (unat t + 511) mod 512" .
  have "unat (take_bit 9 (t + 511)) \<le> unat (511 :: size_t)"
    unfolding tb by simp
  then have le: "take_bit 9 (t + 511) \<le> (511 :: size_t)"
    by (simp only: word_le_nat_alt)
  have "unat (511 - take_bit 9 (t + 511)) = unat (511::size_t) - unat (take_bit 9 (t + 511))"
    by (rule unat_sub [OF le])
  then show ?thesis
    unfolding pad_size_eq tb by simp
qed

lemma pad_size_bound: "unat (pad_size t) < 512"
  unfolding unat_pad_size by simp

lemma pad_arith: "511 - (x + 511) mod 512 = (512 - x mod 512) mod (512::nat)"
proof -
  define r where "r = x mod 512"
  have r: "r < 512" by (simp add: r_def)
  have "(x + 511) mod 512 = (r + 511) mod 512"
    unfolding r_def by (simp add: mod_add_left_eq)
  also have "\<dots> = (if r = 0 then 511 else r - 1)"
  proof (cases "r = 0")
    case True then show ?thesis by simp
  next
    case False
    then have "r + 511 = (r - 1) + 1 * 512" by simp
    then have "(r + 511) mod 512 = (r - 1) mod 512" by (simp only: mod_mult_self1)
    with False r show ?thesis by simp
  qed
  finally have "(x + 511) mod 512 = (if r = 0 then 511 else r - 1)" .
  with r show ?thesis unfolding r_def [symmetric] by (cases "r = 0") simp_all
qed

lemma unat_mod_512: "unat (of_nat n :: size_t) mod 512 = n mod 512"
proof -
  have d: "(512::nat) dvd 2 ^ 64" by simp
  have "unat (of_nat n :: size_t) = n mod 2 ^ 64"
    by (simp add: unat_of_nat take_bit_eq_mod)
  then show ?thesis using mod_mod_cancel [OF d] by simp
qed

lemma pad_size_nat: "unat (pad_size (of_nat n)) = (512 - n mod 512) mod 512"
  unfolding unat_pad_size pad_arith unat_mod_512 ..

lemma total_size_nat:
  "total_size (of_nat b) (of_nat k) = of_nat (36 + b + k)"
  by (simp add: total_size_def sizeof_hdr_def)

lemma sys_close_obs:
  "files (snd (sys_close a w)) = files w \<and>
   trace (snd (sys_close a w)) = trace w @ [EvClose a] \<and>
   faults (snd (sys_close a w)) = faults w \<and>
   stderr_log (snd (sys_close a w)) = stderr_log w \<and>
   stdout_log (snd (sys_close a w)) = stdout_log w"
  by (simp add: sys_close_def log_call_def Let_def split: option.splits)

lemma close_all_obs:
  "files (close_all a b c w) = files w \<and>
   trace (close_all a b c w) = trace w @ [EvClose a, EvClose b, EvClose c] \<and>
   stderr_log (close_all a b c w) = stderr_log w \<and>
   stdout_log (close_all a b c w) = stdout_log w"
  by (simp add: close_all_def sys_close_obs)

lemma generate_pad_ok:
  assumes fd: "0 \<le> ofd"
    and o: "slot_get (fdtab w) (nat ofd) = Some fo" "of_wr fo"
      "files w (of_path fo) = Some oc" "of_pos fo = length oc"
    and nf: "faults w = (\<lambda>_. NoFault)"
    and P: "P = unat (pad_size (total_size bs_sz k_sz))"
  shows "\<exists>w'. generate_pad ofd bfd kfd bs_sz k_sz w = Inr (0, w') \<and>
      files w' = (files w)(of_path fo \<mapsto> oc @ replicate P 0xEE) \<and>
      trace w' = trace w @ (if 0 < P then [EvWrite ofd (replicate P 0xEE)] else []) @
                  [EvClose ofd, EvClose bfd, EvClose kfd] \<and>
      stderr_log w' = stderr_log w \<and>
      stdout_log w' = stdout_log w @ [(total_size bs_sz k_sz, pad_size (total_size bs_sz k_sz))]"
proof (cases "P = 0")
  case True
  then have z: "pad_size (total_size bs_sz k_sz) = 0"
    unfolding P by (simp add: unat_eq_0)
  have f: "(files w)(of_path fo \<mapsto> oc) = files w"
    using o(3) by (simp add: fun_upd_idem)
  show ?thesis using True z f
    by (simp add: generate_pad_def Let_def close_all_obs printf_wrote_def)
next
  case False
  then have nz: "pad_size (total_size bs_sz k_sz) > 0"
    unfolding P by (simp add: word_greater_zero_iff unat_eq_0)
  have le: "P \<le> 512" using pad_size_bound [of "total_size bs_sz k_sz"] P by simp
  have wr: "sys_write ofd (Mem (replicate P 0xEE)) P w =
    (int (length (replicate P (0xEE::byte))),
     w\<lparr>trace := trace w @ [EvWrite ofd (replicate P 0xEE)],
       files := (files w)(of_path fo \<mapsto> oc @ replicate P 0xEE),
       fdtab := (fdtab w)[nat ofd := Some (fo\<lparr>of_pos := length oc + length (replicate P (0xEE::byte))\<rparr>)]\<rparr>)"
    by (rule sys_write_ok) (use fd o nf in \<open>simp_all add: next_fault_def buf_bytes_def\<close>)
  show ?thesis using False nz le wr P [symmetric]
    by (simp add: generate_pad_def Let_def memset_def close_all_obs printf_wrote_def)
qed

subsection \<open>A run without faults: the body\<close>

lemma unat_of_nat_size: "n < 2 ^ 63 \<Longrightarrow> unat (of_nat n :: size_t) = n"
  by (simp add: unat_of_nat take_bit_nat_eq_self)

lemma measure_ok:
  assumes "slot_get (fdtab w) n = Some f" "files w (of_path f) = Some c" "length c < 2 ^ 63"
  shows "\<exists>w1 w2. sys_lseek (int n) 0 SEEK_END w = (of_nat (length c), w1) \<and>
      sys_lseek (int n) 0 SEEK_SET w1 = (0, w2) \<and>
      files w2 = files w \<and>
      trace w2 = trace w @ [EvLseek (int n) SEEK_END, EvLseek (int n) SEEK_SET] \<and>
      fdtab w2 = (fdtab w)[n := Some (f\<lparr>of_pos := 0\<rparr>)] \<and>
      faults w2 = faults w \<and> stderr_log w2 = stderr_log w \<and> stdout_log w2 = stdout_log w"
  using assms slot_get_Some_length [OF assms(1)]
  by (simp add: sys_lseek_def fd_get_def log_call_def Let_def slot_get_update)

lemma sys_write_obs:
  assumes "0 \<le> fd" "slot_get (fdtab w) (nat fd) = Some f" "of_wr f"
    "files w (of_path f) = Some c" "of_pos f = length c"
    "buf_bytes w b len = Some d" "next_fault w = NoFault"
  shows "\<exists>w'. sys_write fd b len w = (int (length d), w') \<and>
      files w' = (files w)(of_path f \<mapsto> c @ d) \<and>
      trace w' = trace w @ [EvWrite fd d] \<and>
      fdtab w' = (fdtab w)[nat fd := Some (f\<lparr>of_pos := length c + length d\<rparr>)] \<and>
      faults w' = faults w \<and> stderr_log w' = stderr_log w \<and> stdout_log w' = stdout_log w"
  unfolding sys_write_ok [OF assms] by simp

lemma generate_body_ok:
  assumes d: "nb \<noteq> nk" "nb \<noteq> no" "nk \<noteq> no"
    and b: "slot_get (fdtab w) nb = Some fb" "of_path fb = bp" "files w bp = Some bs"
    and k: "slot_get (fdtab w) nk = Some fk" "of_path fk = kp" "files w kp = Some ks"
    and o: "slot_get (fdtab w) no = Some \<lparr>of_path = op, of_pos = 0, of_wr = True\<rparr>"
      "files w op = Some []"
    and ne: "op \<noteq> bp" "op \<noteq> kp"
    and nf: "faults w = (\<lambda>_. NoFault)"
    and sz: "length bs < 2 ^ 63" "length ks < 2 ^ 63"
    and H: "H = hdr_bytes (generate_hdr hdr0 (of_nat (length bs)) (of_nat (length ks)))"
    and P: "P = (512 - (36 + length bs + length ks) mod 512) mod 512"
  shows "\<exists>w'. generate_body hdr0 (int no) (int nb) (int nk) w = Inr (0, w') \<and>
      files w' = (files w)(op \<mapsto> H @ bs @ ks @ replicate P 0xEE) \<and>
      trace w' = trace w @
        [EvLseek (int nb) SEEK_END, EvLseek (int nb) SEEK_SET,
         EvLseek (int nk) SEEK_END, EvLseek (int nk) SEEK_SET,
         EvWrite (int no) H,
         EvMmap (int nb) (length bs), EvWrite (int no) bs, EvMunmap (length bs),
         EvMmap (int nk) (length ks), EvWrite (int no) ks, EvMunmap (length ks)] @
        (if 0 < P then [EvWrite (int no) (replicate P 0xEE)] else []) @
        [EvClose (int no), EvClose (int nb), EvClose (int nk)] \<and>
      stderr_log w' = stderr_log w \<and>
      stdout_log w' = stdout_log w @
        [(of_nat (36 + length bs + length ks), of_nat P)]"
proof -
  note len = slot_get_Some_length [OF b(1)] slot_get_Some_length [OF k(1)]
    slot_get_Some_length [OF o(1)]
  define fo :: ofile where "fo = \<lparr>of_path = op, of_pos = 0, of_wr = True\<rparr>"
  have fo: "of_path fo = op" "of_wr fo" "of_pos fo = 0" by (simp_all add: fo_def)
  have lH: "length H = 36" unfolding H by simp
  \<comment> \<open>the bootstrap size\<close>
  have "files w (of_path fb) = Some bs" using b by simp
  from measure_ok [OF b(1) this sz(1)]
  obtain w1 w2 where s1: "sys_lseek (int nb) 0 SEEK_END w = (of_nat (length bs), w1)"
    and s2: "sys_lseek (int nb) 0 SEEK_SET w1 = (0, w2)"
    and f2: "files w2 = files w"
    and t2: "trace w2 = trace w @ [EvLseek (int nb) SEEK_END, EvLseek (int nb) SEEK_SET]"
    and d2: "fdtab w2 = (fdtab w)[nb := Some (fb\<lparr>of_pos := 0\<rparr>)]"
    and n2: "faults w2 = faults w" and e2: "stderr_log w2 = stderr_log w"
    and p2: "stdout_log w2 = stdout_log w"
    by blast
  \<comment> \<open>the kernel size\<close>
  have k2: "slot_get (fdtab w2) nk = Some fk"
    using k d by (simp add: d2 slot_get_update)
  have "files w2 (of_path fk) = Some ks" using k f2 by simp
  from measure_ok [OF k2 this sz(2)]
  obtain w3 w4 where s3: "sys_lseek (int nk) 0 SEEK_END w2 = (of_nat (length ks), w3)"
    and s4: "sys_lseek (int nk) 0 SEEK_SET w3 = (0, w4)"
    and f4: "files w4 = files w"
    and t4: "trace w4 = trace w2 @ [EvLseek (int nk) SEEK_END, EvLseek (int nk) SEEK_SET]"
    and d4: "fdtab w4 = (fdtab w2)[nk := Some (fk\<lparr>of_pos := 0\<rparr>)]"
    and n4: "faults w4 = faults w" and e4: "stderr_log w4 = stderr_log w"
    and p4: "stdout_log w4 = stdout_log w"
    unfolding f2 n2 e2 p2 by blast
  have l4: "length (fdtab w4) = length (fdtab w)" by (simp add: d4 d2)
  have b4: "slot_get (fdtab w4) nb = Some (fb\<lparr>of_pos := 0\<rparr>)"
    using d len by (simp add: d4 d2 slot_get_update)
  have k4: "slot_get (fdtab w4) nk = Some (fk\<lparr>of_pos := 0\<rparr>)"
    using d len by (simp add: d4 d2 slot_get_update)
  \<comment> \<open>the header\<close>
  have o4: "slot_get (fdtab w4) (nat (int no)) = Some fo"
    using o d by (simp add: d4 d2 slot_get_update fo_def)
  have a4: "files w4 (of_path fo) = Some []" "of_pos fo = length ([]::byte list)"
    "buf_bytes w4 (Mem H) sizeof_hdr = Some H" "next_fault w4 = NoFault"
    using o fo lH nf by (simp_all add: f4 n4 buf_bytes_def sizeof_hdr_def next_fault_def)
  from sys_write_obs [OF _ o4 fo(2) a4]
  obtain w5 where s5: "sys_write (int no) (Mem H) sizeof_hdr w4 = (int (length H), w5)"
    and f5: "files w5 = (files w)(op \<mapsto> H)"
    and t5: "trace w5 = trace w4 @ [EvWrite (int no) H]"
    and d5: "fdtab w5 = (fdtab w4)[no := Some (fo\<lparr>of_pos := 36\<rparr>)]"
    and n5: "faults w5 = faults w" and e5: "stderr_log w5 = stderr_log w"
    and p5: "stdout_log w5 = stdout_log w"
    unfolding f4 n4 e4 p4 using fo lH by auto
  \<comment> \<open>the bootstrap payload\<close>
  have b5: "slot_get (fdtab w5) (nat (int nb)) = Some (fb\<lparr>of_pos := 0\<rparr>)"
    using b4 d by (simp add: d5 slot_get_update)
  have o5: "slot_get (fdtab w5) (nat (int no)) = Some (fo\<lparr>of_pos := 36\<rparr>)"
    using len by (simp add: d5 l4 slot_get_update)
  have a5: "files w5 (of_path (fb\<lparr>of_pos := 0\<rparr>)) = Some bs"
    "of_wr (fo\<lparr>of_pos := 36\<rparr>)" "files w5 (of_path (fo\<lparr>of_pos := 36\<rparr>)) = Some H"
    "of_pos (fo\<lparr>of_pos := 36\<rparr>) = length H" "faults w5 = (\<lambda>_. NoFault)"
    "unat (of_nat (length bs) :: size_t) = length bs"
    using b ne fo lH nf sz by (simp_all add: f5 n5 unat_of_nat_size)
  from output_append_ok [OF _ _ b5 a5(1) o5 a5(2-6)]
  obtain w6 where s6: "output_append (int no) (int nb) (of_nat (length bs)) w5 = (0, w6)"
    and f6: "files w6 = (files w)(op \<mapsto> H @ bs)"
    and t6: "trace w6 = trace w5 @ [EvMmap (int nb) (length bs), EvWrite (int no) bs, EvMunmap (length bs)]"
    and d6: "fdtab w6 = (fdtab w5)[no := Some (fo\<lparr>of_pos := 36 + length bs\<rparr>)]"
    and n6: "faults w6 = faults w" and e6: "stderr_log w6 = stderr_log w"
    and p6: "stdout_log w6 = stdout_log w"
    unfolding f5 n5 e5 p5 using fo lH by auto
  \<comment> \<open>the kernel payload\<close>
  have l5: "length (fdtab w5) = length (fdtab w)" by (simp add: d5 l4)
  have k6: "slot_get (fdtab w6) (nat (int nk)) = Some (fk\<lparr>of_pos := 0\<rparr>)"
    using k4 d by (simp add: d6 d5 slot_get_update)
  have o6: "slot_get (fdtab w6) (nat (int no)) = Some (fo\<lparr>of_pos := 36 + length bs\<rparr>)"
    using len by (simp add: d6 l5 slot_get_update)
  have a6: "files w6 (of_path (fk\<lparr>of_pos := 0\<rparr>)) = Some ks"
    "of_wr (fo\<lparr>of_pos := 36 + length bs\<rparr>)"
    "files w6 (of_path (fo\<lparr>of_pos := 36 + length bs\<rparr>)) = Some (H @ bs)"
    "of_pos (fo\<lparr>of_pos := 36 + length bs\<rparr>) = length (H @ bs)" "faults w6 = (\<lambda>_. NoFault)"
    "unat (of_nat (length ks) :: size_t) = length ks"
    using k ne fo lH nf sz by (simp_all add: f6 n6 unat_of_nat_size)
  from output_append_ok [OF _ _ k6 a6(1) o6 a6(2-6)]
  obtain w7 where s7: "output_append (int no) (int nk) (of_nat (length ks)) w6 = (0, w7)"
    and f7: "files w7 = (files w)(op \<mapsto> H @ bs @ ks)"
    and t7: "trace w7 = trace w6 @ [EvMmap (int nk) (length ks), EvWrite (int no) ks, EvMunmap (length ks)]"
    and d7: "fdtab w7 = (fdtab w6)[no := Some (fo\<lparr>of_pos := 36 + length bs + length ks\<rparr>)]"
    and n7: "faults w7 = faults w" and e7: "stderr_log w7 = stderr_log w"
    and p7: "stdout_log w7 = stdout_log w"
    unfolding f6 n6 e6 p6 using fo lH by auto
  \<comment> \<open>the fill bytes and the release\<close>
  have Pw: "P = unat (pad_size (total_size (of_nat (length bs)) (of_nat (length ks))))"
    unfolding P total_size_nat pad_size_nat ..
  have l6: "length (fdtab w6) = length (fdtab w)" by (simp add: d6 l5)
  have o7: "slot_get (fdtab w7) (nat (int no)) = Some (fo\<lparr>of_pos := 36 + length bs + length ks\<rparr>)"
    using len by (simp add: d7 l6 slot_get_update)
  have a7: "of_wr (fo\<lparr>of_pos := 36 + length bs + length ks\<rparr>)"
    "files w7 (of_path (fo\<lparr>of_pos := 36 + length bs + length ks\<rparr>)) = Some (H @ bs @ ks)"
    "of_pos (fo\<lparr>of_pos := 36 + length bs + length ks\<rparr>) = length (H @ bs @ ks)"
    "faults w7 = (\<lambda>_. NoFault)"
    using fo lH nf by (simp_all add: f7 n7)
  from generate_pad_ok [OF _ o7 a7 Pw, of "int nb" "int nk"]
  obtain w' where s8: "generate_pad (int no) (int nb) (int nk) (of_nat (length bs)) (of_nat (length ks)) w7 = Inr (0, w')"
    and f8: "files w' = (files w)(op \<mapsto> H @ bs @ ks @ replicate P 0xEE)"
    and t8: "trace w' = trace w7 @ (if 0 < P then [EvWrite (int no) (replicate P 0xEE)] else []) @
                  [EvClose (int no), EvClose (int nb), EvClose (int nk)]"
    and e8: "stderr_log w' = stderr_log w"
    and p8: "stdout_log w' = stdout_log w @
        [(total_size (of_nat (length bs)) (of_nat (length ks)),
          pad_size (total_size (of_nat (length bs)) (of_nat (length ks))))]"
    unfolding f7 e7 p7 using fo by auto
  have pw: "pad_size (total_size (of_nat (length bs)) (of_nat (length ks))) = of_nat P"
    unfolding Pw by simp
  have run: "generate_body hdr0 (int no) (int nb) (int nk) w = Inr (0, w')"
    unfolding generate_body_def s1 s2 s3 s4 prod.case Let_def H [symmetric] s5 s6 s7
    using s8 by simp
  show ?thesis
    using run f8 e8 p8 pw
    by (simp add: total_size_nat t8 t7 t6 t5 t4 t2)
qed

subsection \<open>A run without faults: the whole of generate\<close>

lemma sys_open_rd_ok:
  assumes "files w p = Some c" "next_fault w = NoFault"
  shows "\<exists>n w'. sys_open p O_RDONLY w = (int n, w') \<and>
      slot_get (fdtab w) n = None \<and>
      slot_get (fdtab w') = (slot_get (fdtab w))(n \<mapsto> \<lparr>of_path = p, of_pos = 0, of_wr = False\<rparr>) \<and>
      files w' = files w \<and> trace w' = trace w @ [EvOpen p O_RDONLY] \<and>
      faults w' = faults w \<and> stderr_log w' = stderr_log w \<and> stdout_log w' = stdout_log w"
proof -
  obtain n t where a: "slot_alloc (fdtab w) \<lparr>of_path = p, of_pos = 0, of_wr = False\<rparr> = (n, t)"
    by (cases "slot_alloc (fdtab w) \<lparr>of_path = p, of_pos = 0, of_wr = False\<rparr>")
  from slot_alloc_get [OF a] assms a show ?thesis
    by (simp add: sys_open_def log_call_def)
qed

lemma sys_open_wr_ok:
  assumes "next_fault w = NoFault"
  shows "\<exists>n w'. sys_open p O_WRONLY_CREAT_TRUNC w = (int n, w') \<and>
      slot_get (fdtab w) n = None \<and>
      slot_get (fdtab w') = (slot_get (fdtab w))(n \<mapsto> \<lparr>of_path = p, of_pos = 0, of_wr = True\<rparr>) \<and>
      files w' = (files w)(p \<mapsto> []) \<and> trace w' = trace w @ [EvOpen p O_WRONLY_CREAT_TRUNC] \<and>
      faults w' = faults w \<and> stderr_log w' = stderr_log w \<and> stdout_log w' = stdout_log w"
proof -
  obtain n t where a: "slot_alloc (fdtab w) \<lparr>of_path = p, of_pos = 0, of_wr = True\<rparr> = (n, t)"
    by (cases "slot_alloc (fdtab w) \<lparr>of_path = p, of_pos = 0, of_wr = True\<rparr>")
  from slot_alloc_get [OF a] assms a show ?thesis
    by (simp add: sys_open_def log_call_def)
qed

lemma generate_ok:
  assumes src: "files w (bootstrap_path cfg) = Some bs" "files w (kernel_path cfg) = Some ks"
    and ne: "output_file cfg \<noteq> bootstrap_path cfg" "output_file cfg \<noteq> kernel_path cfg"
    and nf: "faults w = (\<lambda>_. NoFault)"
    and sz: "length bs < 2 ^ 63" "length ks < 2 ^ 63"
    and H: "H = hdr_bytes (generate_hdr hdr0 (of_nat (length bs)) (of_nat (length ks)))"
    and P: "P = (512 - (36 + length bs + length ks) mod 512) mod 512"
  shows "\<exists>nb nk no w'. generate cfg hdr0 w = Inr (0, w') \<and>
      nb \<noteq> nk \<and> nb \<noteq> no \<and> nk \<noteq> no \<and>
      files w' = (files w)(output_file cfg \<mapsto> H @ bs @ ks @ replicate P 0xEE) \<and>
      trace w' = trace w @
        [EvOpen (bootstrap_path cfg) O_RDONLY, EvOpen (kernel_path cfg) O_RDONLY,
         EvOpen (output_file cfg) O_WRONLY_CREAT_TRUNC,
         EvLseek (int nb) SEEK_END, EvLseek (int nb) SEEK_SET,
         EvLseek (int nk) SEEK_END, EvLseek (int nk) SEEK_SET,
         EvWrite (int no) H,
         EvMmap (int nb) (length bs), EvWrite (int no) bs, EvMunmap (length bs),
         EvMmap (int nk) (length ks), EvWrite (int no) ks, EvMunmap (length ks)] @
        (if 0 < P then [EvWrite (int no) (replicate P 0xEE)] else []) @
        [EvClose (int no), EvClose (int nb), EvClose (int nk)] \<and>
      stderr_log w' = stderr_log w \<and>
      stdout_log w' = stdout_log w @ [(of_nat (36 + length bs + length ks), of_nat P)]"
proof -
  have n0: "next_fault w = NoFault" by (simp add: next_fault_def nf)
  from sys_open_rd_ok [OF src(1) n0]
  obtain nb w1 where s1: "sys_open (bootstrap_path cfg) O_RDONLY w = (int nb, w1)"
    and g0: "slot_get (fdtab w) nb = None"
    and d1: "slot_get (fdtab w1) =
      (slot_get (fdtab w))(nb \<mapsto> \<lparr>of_path = bootstrap_path cfg, of_pos = 0, of_wr = False\<rparr>)"
    and f1: "files w1 = files w" and t1: "trace w1 = trace w @ [EvOpen (bootstrap_path cfg) O_RDONLY]"
    and n1: "faults w1 = faults w" and e1: "stderr_log w1 = stderr_log w"
    and p1: "stdout_log w1 = stdout_log w"
    by blast
  have a1: "files w1 (kernel_path cfg) = Some ks" "next_fault w1 = NoFault"
    using src by (simp_all add: f1 n1 nf next_fault_def)
  from sys_open_rd_ok [OF a1]
  obtain nk w2 where s2: "sys_open (kernel_path cfg) O_RDONLY w1 = (int nk, w2)"
    and g1: "slot_get (fdtab w1) nk = None"
    and d2: "slot_get (fdtab w2) =
      (slot_get (fdtab w1))(nk \<mapsto> \<lparr>of_path = kernel_path cfg, of_pos = 0, of_wr = False\<rparr>)"
    and f2: "files w2 = files w" and t2: "trace w2 = trace w1 @ [EvOpen (kernel_path cfg) O_RDONLY]"
    and n2: "faults w2 = faults w" and e2: "stderr_log w2 = stderr_log w"
    and p2: "stdout_log w2 = stdout_log w"
    unfolding f1 n1 e1 p1 by blast
  have a2: "next_fault w2 = NoFault"
    by (simp add: n2 nf next_fault_def)
  from sys_open_wr_ok [OF a2, of "output_file cfg"]
  obtain no w3 where s3: "sys_open (output_file cfg) O_WRONLY_CREAT_TRUNC w2 = (int no, w3)"
    and g2: "slot_get (fdtab w2) no = None"
    and d3: "slot_get (fdtab w3) =
      (slot_get (fdtab w2))(no \<mapsto> \<lparr>of_path = output_file cfg, of_pos = 0, of_wr = True\<rparr>)"
    and f3: "files w3 = (files w)(output_file cfg \<mapsto> [])"
    and t3: "trace w3 = trace w2 @ [EvOpen (output_file cfg) O_WRONLY_CREAT_TRUNC]"
    and n3: "faults w3 = faults w" and e3: "stderr_log w3 = stderr_log w"
    and p3: "stdout_log w3 = stdout_log w"
    unfolding f2 n2 e2 p2 by blast
  have dist: "nb \<noteq> nk" "nb \<noteq> no" "nk \<noteq> no"
    using g1 g2 by (auto simp: d1 d2 split: if_splits)
  have b3: "slot_get (fdtab w3) nb = Some \<lparr>of_path = bootstrap_path cfg, of_pos = 0, of_wr = False\<rparr>"
    "of_path \<lparr>of_path = bootstrap_path cfg, of_pos = 0, of_wr = False\<rparr> = bootstrap_path cfg"
    "files w3 (bootstrap_path cfg) = Some bs"
    using dist src ne by (simp_all add: d3 d2 d1 f3)
  have k3: "slot_get (fdtab w3) nk = Some \<lparr>of_path = kernel_path cfg, of_pos = 0, of_wr = False\<rparr>"
    "of_path \<lparr>of_path = kernel_path cfg, of_pos = 0, of_wr = False\<rparr> = kernel_path cfg"
    "files w3 (kernel_path cfg) = Some ks"
    using dist src ne by (simp_all add: d3 d2 d1 f3)
  have o3: "slot_get (fdtab w3) no = Some \<lparr>of_path = output_file cfg, of_pos = 0, of_wr = True\<rparr>"
    "files w3 (output_file cfg) = Some []"
    by (simp_all add: d3 f3)
  have n3': "faults w3 = (\<lambda>_. NoFault)" by (simp add: n3 nf)
  from generate_body_ok [OF dist b3 k3 o3 ne n3' sz H P]
  obtain w' where s4: "generate_body hdr0 (int no) (int nb) (int nk) w3 = Inr (0, w')"
    and f4: "files w' = (files w3)(output_file cfg \<mapsto> H @ bs @ ks @ replicate P 0xEE)"
    and t4: "trace w' = trace w3 @
        [EvLseek (int nb) SEEK_END, EvLseek (int nb) SEEK_SET,
         EvLseek (int nk) SEEK_END, EvLseek (int nk) SEEK_SET,
         EvWrite (int no) H,
         EvMmap (int nb) (length bs), EvWrite (int no) bs, EvMunmap (length bs),
         EvMmap (int nk) (length ks), EvWrite (int no) ks, EvMunmap (length ks)] @
        (if 0 < P then [EvWrite (int no) (replicate P 0xEE)] else []) @
        [EvClose (int no), EvClose (int nb), EvClose (int nk)]"
    and e4: "stderr_log w' = stderr_log w"
    and p4: "stdout_log w' = stdout_log w @ [(of_nat (36 + length bs + length ks), of_nat P)]"
    unfolding e3 p3 by blast
  have run: "generate cfg hdr0 w = Inr (0, w')"
    unfolding generate_def s1 s2 s3 prod.case using s4 by simp
  have "files w' = (files w)(output_file cfg \<mapsto> H @ bs @ ks @ replicate P 0xEE)"
    by (simp add: f4 f3)
  moreover have "trace w' = trace w @
        [EvOpen (bootstrap_path cfg) O_RDONLY, EvOpen (kernel_path cfg) O_RDONLY,
         EvOpen (output_file cfg) O_WRONLY_CREAT_TRUNC,
         EvLseek (int nb) SEEK_END, EvLseek (int nb) SEEK_SET,
         EvLseek (int nk) SEEK_END, EvLseek (int nk) SEEK_SET,
         EvWrite (int no) H,
         EvMmap (int nb) (length bs), EvWrite (int no) bs, EvMunmap (length bs),
         EvMmap (int nk) (length ks), EvWrite (int no) ks, EvMunmap (length ks)] @
        (if 0 < P then [EvWrite (int no) (replicate P 0xEE)] else []) @
        [EvClose (int no), EvClose (int nb), EvClose (int nk)]"
    by (simp add: t4 t3 t2 t1)
  ultimately show ?thesis using run dist e4 p4 by blast
qed

subsection \<open>Every run: what is still held at the end\<close>

lemma set_live_slots: "set (live_slots t) = dom (slot_get t)"
  by (auto simp: live_slots_def slot_get_def dom_def split: if_splits)

lemma live_slots_eqI:
  assumes "dom (slot_get t) = dom (slot_get u)"
  shows "live_slots t = live_slots u"
proof (rule sorted_distinct_set_unique)
  show "sorted (live_slots t)" "sorted (live_slots u)"
    by (simp_all add: live_slots_def sorted_wrt_filter)
  show "distinct (live_slots t)" "distinct (live_slots u)"
    by (simp_all add: live_slots_def)
  show "set (live_slots t) = set (live_slots u)"
    using assms by (simp add: set_live_slots)
qed

lemma sys_lseek_stderr: "stderr_log (snd (sys_lseek fd off wh w)) = stderr_log w"
  by (simp add: sys_lseek_def log_call_def Let_def split: option.splits)

lemma sys_write_stderr: "stderr_log (snd (sys_write fd b len w)) = stderr_log w"
  by (simp add: sys_write_def log_call_def Let_def split: option.splits fault.splits)

lemma close_all_dom:
  assumes "0 \<le> a" "0 \<le> b" "0 \<le> c"
  shows "maps (close_all a b c w) = maps w \<and>
     dom (slot_get (fdtab (close_all a b c w))) = dom (slot_get (fdtab w)) - {nat a, nat b, nat c}"
proof -
  let ?w1 = "snd (sys_close a w)"
  let ?w2 = "snd (sys_close b ?w1)"
  note x = sys_close_dom [OF assms(1), of w] sys_close_dom [OF assms(2), of ?w1]
    sys_close_dom [OF assms(3), of ?w2]
  show ?thesis unfolding close_all_def using x by auto
qed

lemma generate_pad_gen:
  assumes "0 \<le> ofd" "0 \<le> bfd" "0 \<le> kfd"
  shows "\<exists>w'. generate_pad ofd bfd kfd bs_sz k_sz w = Inr (0, w') \<and>
      dom (slot_get (fdtab w')) = dom (slot_get (fdtab w)) - {nat ofd, nat bfd, nat kfd} \<and>
      dom (slot_get (maps w')) = dom (slot_get (maps w)) \<and> stderr_log w' = stderr_log w"
proof -
  define t where "t = total_size bs_sz k_sz"
  define n where "n = unat (pad_size t)"
  have le: "n \<le> 512" using pad_size_bound [of t] by (simp add: n_def)
  define w1 where "w1 = snd (sys_write ofd (Mem (replicate n 0xEE)) n w)"
  have w1: "maps w1 = maps w" "dom (slot_get (fdtab w1)) = dom (slot_get (fdtab w))"
    "stderr_log w1 = stderr_log w"
    unfolding w1_def using sys_write_dom [of ofd _ n w] sys_write_stderr [of ofd _ n w] by simp_all
  have c: "\<And>v. maps (close_all ofd bfd kfd (printf_wrote t (pad_size t) v)) = maps v \<and>
     dom (slot_get (fdtab (close_all ofd bfd kfd (printf_wrote t (pad_size t) v)))) =
       dom (slot_get (fdtab v)) - {nat ofd, nat bfd, nat kfd} \<and>
     stderr_log (close_all ofd bfd kfd (printf_wrote t (pad_size t) v)) = stderr_log v"
    using close_all_dom [OF assms] by (simp add: close_all_obs printf_wrote_def)
  show ?thesis
  proof (cases "pad_size t > 0")
    case True
    then have "generate_pad ofd bfd kfd bs_sz k_sz w =
        Inr (0, close_all ofd bfd kfd (printf_wrote t (pad_size t) w1))"
      using le by (simp add: generate_pad_def Let_def memset_def t_def [symmetric]
          n_def [symmetric] w1_def split: prod.splits)
    with c [of w1] w1 show ?thesis by simp
  next
    case False
    then have "generate_pad ofd bfd kfd bs_sz k_sz w =
        Inr (0, close_all ofd bfd kfd (printf_wrote t (pad_size t) w))"
      by (simp add: generate_pad_def Let_def t_def [symmetric])
    with c [of w] show ?thesis by simp
  qed
qed

lemma generate_body_gen:
  assumes fd: "0 \<le> ofd" "0 \<le> bfd" "0 \<le> kfd"
  shows "\<exists>w'. generate_body hdr0 ofd bfd kfd w = Inr (0, w') \<and>
      dom (slot_get (fdtab w')) = dom (slot_get (fdtab w)) - {nat ofd, nat bfd, nat kfd} \<and>
      dom (slot_get (maps w')) = dom (slot_get (maps w)) \<and> stderr_log w' = stderr_log w"
proof -
  obtain bs_sz w1 where s1: "sys_lseek bfd 0 SEEK_END w = (bs_sz, w1)" by fastforce
  obtain r2 w2 where s2: "sys_lseek bfd 0 SEEK_SET w1 = (r2, w2)" by fastforce
  obtain k_sz w3 where s3: "sys_lseek kfd 0 SEEK_END w2 = (k_sz, w3)" by fastforce
  obtain r4 w4 where s4: "sys_lseek kfd 0 SEEK_SET w3 = (r4, w4)" by fastforce
  define H where "H = hdr_bytes (generate_hdr hdr0 bs_sz k_sz)"
  obtain r5 w5 where s5: "sys_write ofd (Mem H) sizeof_hdr w4 = (r5, w5)" by fastforce
  obtain r6 w6 where s6: "output_append ofd bfd bs_sz w5 = (r6, w6)" by fastforce
  obtain r7 w7 where s7: "output_append ofd kfd k_sz w6 = (r7, w7)" by fastforce
  have p1: "maps w1 = maps w" "dom (slot_get (fdtab w1)) = dom (slot_get (fdtab w))"
    "stderr_log w1 = stderr_log w"
    using sys_lseek_dom [of bfd 0 SEEK_END w] sys_lseek_stderr [of bfd 0 SEEK_END w] s1 by simp_all
  have p2: "maps w2 = maps w" "dom (slot_get (fdtab w2)) = dom (slot_get (fdtab w))"
    "stderr_log w2 = stderr_log w"
    using sys_lseek_dom [of bfd 0 SEEK_SET w1] sys_lseek_stderr [of bfd 0 SEEK_SET w1] s2 p1
    by simp_all
  have p3: "maps w3 = maps w" "dom (slot_get (fdtab w3)) = dom (slot_get (fdtab w))"
    "stderr_log w3 = stderr_log w"
    using sys_lseek_dom [of kfd 0 SEEK_END w2] sys_lseek_stderr [of kfd 0 SEEK_END w2] s3 p2
    by simp_all
  have p4: "maps w4 = maps w" "dom (slot_get (fdtab w4)) = dom (slot_get (fdtab w))"
    "stderr_log w4 = stderr_log w"
    using sys_lseek_dom [of kfd 0 SEEK_SET w3] sys_lseek_stderr [of kfd 0 SEEK_SET w3] s4 p3
    by simp_all
  have p5: "maps w5 = maps w" "dom (slot_get (fdtab w5)) = dom (slot_get (fdtab w))"
    "stderr_log w5 = stderr_log w"
    using sys_write_dom [of ofd "Mem H" sizeof_hdr w4] sys_write_stderr [of ofd "Mem H" sizeof_hdr w4]
      s5 p4 by simp_all
  have p6: "r6 = 0" "dom (slot_get (maps w6)) = dom (slot_get (maps w))"
    "dom (slot_get (fdtab w6)) = dom (slot_get (fdtab w))" "stderr_log w6 = stderr_log w"
    using output_append_dom [OF s6] p5 by simp_all
  have p7: "r7 = 0" "dom (slot_get (maps w7)) = dom (slot_get (maps w))"
    "dom (slot_get (fdtab w7)) = dom (slot_get (fdtab w))" "stderr_log w7 = stderr_log w"
    using output_append_dom [OF s7] p6 by simp_all
  have run: "generate_body hdr0 ofd bfd kfd w = generate_pad ofd bfd kfd bs_sz k_sz w7"
    unfolding generate_body_def s1 s2 s3 s4 prod.case Let_def H_def [symmetric] s5 s6 s7
    using p6 p7 by simp
  from generate_pad_gen [OF fd, of bs_sz k_sz w7] show ?thesis
    unfolding run p7 .
qed

lemma generate_gen:
  "\<exists>r w'. generate cfg hdr0 w = Inr (r, w') \<and>
      dom (slot_get (fdtab w')) = dom (slot_get (fdtab w)) \<and>
      dom (slot_get (maps w')) = dom (slot_get (maps w))"
proof -
  obtain bfd w1 where s1: "sys_open (bootstrap_path cfg) O_RDONLY w = (bfd, w1)" by fastforce
  note o1 = sys_open_dom [OF s1]
  show ?thesis
  proof (cases "bfd < 0")
    case True
    then have "generate cfg hdr0 w = Inr (- 1, perror ''open[bs]'' w1)"
      by (simp add: generate_def s1)
    moreover from True o1 have "fdtab w1 = fdtab w" "maps w1 = maps w" by auto
    ultimately show ?thesis by (simp add: perror_def)
  next
    case b: False
    with o1 have m1: "maps w1 = maps w" and b0: "0 \<le> bfd"
      and nb: "nat bfd \<notin> dom (slot_get (fdtab w))"
      and d1: "dom (slot_get (fdtab w1)) = insert (nat bfd) (dom (slot_get (fdtab w)))"
      by auto
    obtain kfd w2 where s2: "sys_open (kernel_path cfg) O_RDONLY w1 = (kfd, w2)" by fastforce
    note o2 = sys_open_dom [OF s2]
    show ?thesis
    proof (cases "kfd < 0")
      case True
      then have run: "generate cfg hdr0 w = Inr (- 1, snd (sys_close bfd w2))"
        using b by (simp add: generate_def s1 s2)
      from True o2 have e: "fdtab w2 = fdtab w1" "maps w2 = maps w1" by auto
      have "dom (slot_get (fdtab (snd (sys_close bfd w2)))) = dom (slot_get (fdtab w))"
        using sys_close_dom [OF b0, of w2] d1 nb e by auto
      moreover have "maps (snd (sys_close bfd w2)) = maps w"
        using sys_close_dom [OF b0, of w2] e m1 by simp
      ultimately show ?thesis unfolding run by simp
    next
      case k: False
      with o2 have m2: "maps w2 = maps w" and k0: "0 \<le> kfd"
        and nk: "nat kfd \<notin> dom (slot_get (fdtab w1))"
        and d2: "dom (slot_get (fdtab w2)) = insert (nat kfd) (dom (slot_get (fdtab w1)))"
        using m1 by auto
      obtain ofd w3 where s3: "sys_open (output_file cfg) O_WRONLY_CREAT_TRUNC w2 = (ofd, w3)"
        by fastforce
      note o3 = sys_open_dom [OF s3]
      show ?thesis
      proof (cases "ofd < 0")
        case True
        let ?v = "perror ''open[out]'' w3"
        let ?v1 = "snd (sys_close bfd ?v)"
        have run: "generate cfg hdr0 w = Inr (- 1, snd (sys_close kfd ?v1))"
          using b k True by (simp add: generate_def s1 s2 s3)
        from True o3 have e: "fdtab w3 = fdtab w2" "maps w3 = maps w2" by auto
        have v: "fdtab ?v = fdtab w2" "maps ?v = maps w" using e m2 by (simp_all add: perror_def)
        note c1 = sys_close_dom [OF b0, of ?v] and c2 = sys_close_dom [OF k0, of ?v1]
        have "dom (slot_get (fdtab (snd (sys_close kfd ?v1)))) = dom (slot_get (fdtab w))"
          using c1 c2 v d1 d2 nb nk by auto
        moreover have "maps (snd (sys_close kfd ?v1)) = maps w"
          using c1 c2 v by simp
        ultimately show ?thesis unfolding run by simp
      next
        case o: False
        with o3 have m3: "maps w3 = maps w" and o0: "0 \<le> ofd"
          and no: "nat ofd \<notin> dom (slot_get (fdtab w2))"
          and d3: "dom (slot_get (fdtab w3)) = insert (nat ofd) (dom (slot_get (fdtab w2)))"
          using m2 by auto
        from generate_body_gen [OF o0 b0 k0, of hdr0 w3]
        obtain w' where body: "generate_body hdr0 ofd bfd kfd w3 = Inr (0, w')"
          and df: "dom (slot_get (fdtab w')) = dom (slot_get (fdtab w3)) - {nat ofd, nat bfd, nat kfd}"
          and dm: "dom (slot_get (maps w')) = dom (slot_get (maps w3))"
          by blast
        have run: "generate cfg hdr0 w = Inr (0, w')"
          using b k o body by (simp add: generate_def s1 s2 s3)
        have "dom (slot_get (fdtab w')) = dom (slot_get (fdtab w))"
          unfolding df d3 d2 d1 using nb nk no d1 d2 by auto
        then show ?thesis
          unfolding run using dm m3 by simp
      qed
    qed
  qed
qed

section \<open>The claims\<close>

subsection \<open>The header fields\<close>

lemmas hdr_defs = generate_hdr_def sizeof_hdr_def MBR_END_OFFSET_def SECTOR_SIZE_def
  ALIGN_UP_def int_div_def signed_divide_int_def Let_def

text \<open>What the assignments of lines 125 to 137 leave in the header, for every pair of
  sizes: the two kernel fields are never assigned, and the bootstrap fields end up with
  the kernel's size and the offset behind the bootstrap payload.\<close>

lemma generate_hdr_fields:
  "bootstrap_off (generate_hdr hdr0 bs_sz k_sz) = 512 + bs_sz \<and>
   bootstrap_size (generate_hdr hdr0 bs_sz k_sz) = k_sz \<and>
   kernel_off (generate_hdr hdr0 bs_sz k_sz) = kernel_off hdr0 \<and>
   kernel_size (generate_hdr hdr0 bs_sz k_sz) = kernel_size hdr0 \<and>
   hdr_size (generate_hdr hdr0 bs_sz k_sz) = 36"
  by (simp add: generate_hdr_def sizeof_hdr_def MBR_END_OFFSET_def SECTOR_SIZE_def Let_def)

text \<open>
  Claim C1: for all sizes \<open>b\<close> and \<open>k\<close> the header has \<open>bootstrap_off = 512\<close>,
  \<open>bootstrap_size = b\<close>, \<open>kernel_off = 512 + b\<close> and \<open>kernel_size = k\<close>.
  The code does not do this. With a bootstrap of 440 bytes and a kernel of 1000 bytes the
  header is the uninitialised object with four fields assigned: \<open>bootstrap_off\<close> is
  952 (the claim: 512), \<open>bootstrap_size\<close> is 1000 (the claim: 440), and
  \<open>kernel_off\<close> and \<open>kernel_size\<close> keep whatever the stack held (the claim: 952 and
  1000). The second pair of assignments, under the comment that announces the kernel
  part, writes the bootstrap fields again.
\<close>

theorem header_kernel_fields_unset:
  "generate_hdr hdr0 440 1000 =
     hdr0\<lparr>hdr_size := 36, sector_count := 3, bootstrap_off := 952, bootstrap_size := 1000\<rparr>"
  by (simp add: hdr_defs)

text \<open>The sector count of the header is right as long as the byte total, rounded up to
  a sector, fits 16 bits: up to a total of 65024 bytes.\<close>

lemma ucast_of_nat_small:
  "n < 2 ^ LENGTH('a) \<Longrightarrow> (ucast (of_nat n :: 'a::len word) :: 'b::len word) = of_nat n"
  by (simp add: unsigned_of_nat take_bit_nat_eq_self)

lemma align_up_nat:
  assumes "n + 511 < 2 ^ 32"
  shows "ALIGN_UP (of_nat n :: c_int) SECTOR_SIZE = of_nat ((n + 511) div 512 * 512)"
proof -
  have m: "(0x200 - 1 :: c_int) = mask 9" by (simp add: mask_eq_exp_minus_1)
  have "ALIGN_UP (of_nat n :: c_int) SECTOR_SIZE = of_nat (n + 511) AND NOT (mask 9)"
    unfolding ALIGN_UP_def SECTOR_SIZE_def m by (simp add: ac_simps)
  also have "\<dots> = of_nat (n + 511) - take_bit 9 (of_nat (n + 511) :: c_int)"
    by (rule and_not_mask_minus)
  also have "take_bit 9 (of_nat (n + 511) :: c_int) = of_nat ((n + 511) mod 512)"
    by (subst take_bit_of_nat) (simp add: take_bit_eq_mod)
  also have "of_nat (n + 511) - (of_nat ((n + 511) mod 512) :: c_int)
      = of_nat ((n + 511) - (n + 511) mod 512)"
    by (simp add: of_nat_diff)
  also have "(n + 511) - (n + 511) mod 512 = (n + 511) div 512 * 512"
    by (simp add: minus_mod_eq_div_mult)
  finally show ?thesis .
qed

lemma sint_of_nat_small:
  assumes "m < 2 ^ 31"
  shows "sint (of_nat m :: c_int) = int m"
proof -
  have "signed_take_bit 31 (int m) = int m"
    using assms by (intro signed_take_bit_int_eq_self) simp_all
  then show ?thesis by (simp add: signed_of_nat)
qed

lemma int_div_nat:
  assumes "m < 2 ^ 31"
  shows "int_div (of_nat m) SECTOR_SIZE = of_nat (m div 512)"
proof -
  have "sint (SECTOR_SIZE :: c_int) = 512" by (simp add: SECTOR_SIZE_def)
  moreover have "int m sdiv 512 = int (m div 512)"
    by (cases "m = 0") (simp_all add: signed_divide_int_def zdiv_int)
  ultimately show ?thesis
    by (simp add: int_div_def sint_of_nat_small [OF assms])
qed

lemma sector_count_small:
  assumes "36 + b + k \<le> 65024"
  shows "unat (sector_count (generate_hdr hdr0 (of_nat b) (of_nat k))) = (36 + b + k + 511) div 512"
proof -
  define n where "n = 36 + b + k"
  define q where "q = (n + 511) div 512"
  define m where "m = q * 512"
  have n: "n \<le> 65024" using assms by (simp add: n_def)
  have q: "q \<le> 127" unfolding q_def using n by simp
  have qm: "m < 65536" unfolding m_def using q by simp
  have mq: "m div 512 = q" unfolding m_def by simp
  have s0: "(ucast (of_nat sizeof_hdr :: uint16_t) :: size_t) + of_nat k + of_nat b = of_nat n"
    by (simp add: sizeof_hdr_def n_def)
  have s1: "(ucast (of_nat n :: size_t) :: uint16_t) = of_nat n"
    using n by (intro ucast_of_nat_small) simp
  have s2: "(ucast (of_nat n :: uint16_t) :: c_int) = of_nat n"
    using n by (intro ucast_of_nat_small) simp
  have s3: "ALIGN_UP (of_nat n :: c_int) SECTOR_SIZE = of_nat m"
    unfolding m_def q_def using n by (intro align_up_nat) simp
  have s4: "(ucast (of_nat m :: c_int) :: uint16_t) = of_nat m"
    using qm by (intro ucast_of_nat_small) simp
  have s5: "(ucast (of_nat m :: uint16_t) :: c_int) = of_nat m"
    using qm by (intro ucast_of_nat_small) simp
  have s6: "int_div (of_nat m) SECTOR_SIZE = of_nat q"
    using qm int_div_nat [of m] by (simp add: mq)
  have s7: "(ucast (of_nat q :: c_int) :: uint16_t) = of_nat q"
    using q by (intro ucast_of_nat_small) simp
  have "sector_count (generate_hdr hdr0 (of_nat b) (of_nat k)) = of_nat q"
    by (simp add: generate_hdr_def Let_def s0 s1 s2 s3 s4 s5 s6 s7)
  moreover have "unat (of_nat q :: uint16_t) = q"
    using q by (simp add: unat_of_nat take_bit_nat_eq_self)
  ultimately show ?thesis by (simp add: q_def n_def)
qed

text \<open>
  Claim C2: for all sizes the \<open>sector_count\<close> written is \<open>ceil((36 + b + k) / 512)\<close>,
  the byte total being never truncated before the rounding.
  The code stores the byte total in the 16-bit field first. With 440 and 65536 bytes the
  total 66012 becomes 476 and the count 1, where the image has 129 sectors; with 440 and
  64600 bytes the total 65076 survives, its rounded value 65536 does not fit the field,
  and the count is 0, where the image has 128 sectors. (Up to a total of 65024 bytes the
  count is right: \<open>sector_count_small\<close>.)
\<close>

theorem sector_count_truncated:
  "sector_count (generate_hdr hdr0 440 65536) = 1 \<and>
   (36 + 440 + 65536 + 511) div 512 = (129::nat) \<and>
   sector_count (generate_hdr hdr0 440 64600) = 0 \<and>
   (36 + 440 + 64600 + 511) div 512 = (128::nat)"
  by (simp add: hdr_defs)

subsection \<open>The fill buffer\<close>

text \<open>
  Claim C10: for every pair of sizes the fill count computed in \<^verbatim>\<open>generate\<close> (the
  aligned total minus the total) is below 512, so \<^verbatim>\<open>memset\<close> and \<^verbatim>\<open>write\<close>
  stay inside the 512 bytes of \<^verbatim>\<open>pad\<close>. The count is below 512 for every 64-bit
  total, also one that wrapped around; \<^verbatim>\<open>memset\<close> on the 512-byte buffer succeeds
  with it; and no run of \<^verbatim>\<open>generate\<close>, in any state of the system, leaves the buffer.
\<close>

theorem pad_fits_buffer:
  "unat (pad_size (total_size bs_sz k_sz)) < 512 \<and>
   memset 512 c (unat (pad_size (total_size bs_sz k_sz))) =
     Some (replicate (unat (pad_size (total_size bs_sz k_sz))) c) \<and>
   generate cfg hdr0 w \<noteq> Inl PadOverflow"
proof -
  have "unat (pad_size (total_size bs_sz k_sz)) < 512" by (rule pad_size_bound)
  moreover from generate_gen [of cfg hdr0 w] have "generate cfg hdr0 w \<noteq> Inl PadOverflow"
    by auto
  ultimately show ?thesis by (simp add: memset_def)
qed

subsection \<open>Release of descriptors and mappings\<close>

text \<open>
  Claim C9: on every exit path of \<^verbatim>\<open>generate\<close> (success, an error before any
  write, an error while copying) every descriptor and mapping acquired during the call
  has been released when the call returns. For every configuration, every content of
  the uninitialised header and every state of the system, whatever the fault oracle
  does: the call returns, and the descriptors open and the mappings live afterwards
  are those that were before.
\<close>

theorem resources_released:
  "\<exists>r w'. generate cfg hdr0 w = Inr (r, w') \<and>
      open_fds w' = open_fds w \<and> live_maps w' = live_maps w"
proof -
  from generate_gen [of cfg hdr0 w]
  obtain r w' where "generate cfg hdr0 w = Inr (r, w')"
    and "dom (slot_get (fdtab w')) = dom (slot_get (fdtab w))"
    and "dom (slot_get (maps w')) = dom (slot_get (maps w))"
    by blast
  then show ?thesis
    by (auto simp: open_fds_def live_maps_def intro: live_slots_eqI)
qed

subsection \<open>The fill bytes\<close>

lemma written_append: "written (xs @ ys) = written xs @ written ys"
  by (induction xs rule: written.induct) simp_all

lemma pad_count_if:
  "(512 - n mod 512) mod 512 = (if n mod 512 = 0 then 0 else 512 - n mod (512::nat))"
  by simp

text \<open>
  Claim C5: exactly \<open>pad_size\<close> bytes, each \<^verbatim>\<open>0xEE\<close>, are appended as the last
  run of the file, and when \<open>36 + b + k\<close> is a multiple of 512 then \<open>pad_size\<close> is 0
  and no fill bytes are appended at all. On a run in which no system call fails, with an
  output path that is neither source and sources within the range of \<^verbatim>\<open>off_t\<close>:
  the output file is the header, the bootstrap, the kernel and then \<open>pad_sz\<close> bytes
  \<^verbatim>\<open>0xEE\<close>, where the \<open>pad_sz\<close> the code computes is 0 for an aligned total and
  512 minus the remainder otherwise; and the blocks written are the header, the
  bootstrap and the kernel, followed by the fill block only when the total is not
  aligned.
\<close>

theorem padding_run:
  assumes src: "files w (bootstrap_path cfg) = Some bs" "files w (kernel_path cfg) = Some ks"
    and ne: "output_file cfg \<noteq> bootstrap_path cfg" "output_file cfg \<noteq> kernel_path cfg"
    and nf: "faults w = (\<lambda>n. NoFault)"
    and sz: "length bs < 2 ^ 63" "length ks < 2 ^ 63"
  shows "\<exists>w'. generate cfg hdr0 w = Inr (0, w') \<and>
      files w' (output_file cfg) =
        Some (hdr_bytes (generate_hdr hdr0 (of_nat (length bs)) (of_nat (length ks))) @ bs @ ks @
              replicate (unat (pad_size (total_size (of_nat (length bs)) (of_nat (length ks))))) 0xEE) \<and>
      unat (pad_size (total_size (of_nat (length bs)) (of_nat (length ks)))) =
        (if (36 + length bs + length ks) mod 512 = 0 then 0
         else 512 - (36 + length bs + length ks) mod 512) \<and>
      written (trace w') = written (trace w) @
        [hdr_bytes (generate_hdr hdr0 (of_nat (length bs)) (of_nat (length ks))), bs, ks] @
        (if (36 + length bs + length ks) mod 512 = 0 then []
         else [replicate (512 - (36 + length bs + length ks) mod 512) 0xEE])"
proof -
  define H where "H = hdr_bytes (generate_hdr hdr0 (of_nat (length bs)) (of_nat (length ks)))"
  define P where "P = (512 - (36 + length bs + length ks) mod 512) mod 512"
  have Pw: "unat (pad_size (total_size (of_nat (length bs)) (of_nat (length ks)))) = P"
    unfolding P_def total_size_nat pad_size_nat ..
  have Pi: "P = (if (36 + length bs + length ks) mod 512 = 0 then 0
         else 512 - (36 + length bs + length ks) mod 512)"
    unfolding P_def by (rule pad_count_if)
  from generate_ok [OF src ne nf sz H_def P_def]
  obtain nb nk no w' where run: "generate cfg hdr0 w = Inr (0, w')"
    and f: "files w' = (files w)(output_file cfg \<mapsto> H @ bs @ ks @ replicate P 0xEE)"
    and t: "trace w' = trace w @
        [EvOpen (bootstrap_path cfg) O_RDONLY, EvOpen (kernel_path cfg) O_RDONLY,
         EvOpen (output_file cfg) O_WRONLY_CREAT_TRUNC,
         EvLseek (int nb) SEEK_END, EvLseek (int nb) SEEK_SET,
         EvLseek (int nk) SEEK_END, EvLseek (int nk) SEEK_SET,
         EvWrite (int no) H,
         EvMmap (int nb) (length bs), EvWrite (int no) bs, EvMunmap (length bs),
         EvMmap (int nk) (length ks), EvWrite (int no) ks, EvMunmap (length ks)] @
        (if 0 < P then [EvWrite (int no) (replicate P 0xEE)] else []) @
        [EvClose (int no), EvClose (int nb), EvClose (int nk)]"
    by blast
  have "written (trace w') = written (trace w) @ [H, bs, ks] @
        (if (36 + length bs + length ks) mod 512 = 0 then []
         else [replicate (512 - (36 + length bs + length ks) mod 512) 0xEE])"
    unfolding t written_append using Pi by (simp split: if_splits)
  with run f Pi show ?thesis
    unfolding Pw H_def [symmetric] by simp
qed

theorem padding_run_witness:
  "files (demo_world (replicate 440 0x90) (replicate 36 0x4B)) (bootstrap_path demo_cfg)
     = Some (replicate 440 0x90) \<and>
   files (demo_world (replicate 440 0x90) (replicate 36 0x4B)) (kernel_path demo_cfg)
     = Some (replicate 36 0x4B) \<and>
   output_file demo_cfg \<noteq> bootstrap_path demo_cfg \<and>
   output_file demo_cfg \<noteq> kernel_path demo_cfg \<and>
   faults (demo_world (replicate 440 0x90) (replicate 36 0x4B)) = (\<lambda>n. NoFault) \<and>
   (\<exists>w'. generate demo_cfg demo_hdr0 (demo_world (replicate 440 0x90) (replicate 36 0x4B))
          = Inr (0, w') \<and>
      files w' ''kernel.img'' =
        Some (hdr_bytes (generate_hdr demo_hdr0 440 36) @ replicate 440 0x90 @ replicate 36 0x4B) \<and>
      written (trace w') =
        [hdr_bytes (generate_hdr demo_hdr0 440 36), replicate 440 0x90, replicate 36 0x4B])"
proof -
  let ?w = "demo_world (replicate 440 0x90) (replicate 36 0x4B)"
  have h: "files ?w (bootstrap_path demo_cfg) = Some (replicate 440 0x90)"
    "files ?w (kernel_path demo_cfg) = Some (replicate 36 0x4B)"
    "output_file demo_cfg \<noteq> bootstrap_path demo_cfg"
    "output_file demo_cfg \<noteq> kernel_path demo_cfg"
    "faults ?w = (\<lambda>n. NoFault)"
    "length (replicate 440 (0x90::byte)) < 2 ^ 63" "length (replicate 36 (0x4B::byte)) < 2 ^ 63"
    by (simp_all add: demo_world_def demo_cfg_def)
  have t: "trace ?w = []" "output_file demo_cfg = ''kernel.img''"
    by (simp_all add: demo_world_def demo_cfg_def)
  from padding_run [OF h, of demo_hdr0]
  obtain w' where "generate demo_cfg demo_hdr0 ?w = Inr (0, w')"
    and "files w' ''kernel.img'' =
        Some (hdr_bytes (generate_hdr demo_hdr0 440 36) @ replicate 440 0x90 @ replicate 36 0x4B)"
    and "written (trace w') =
        [hdr_bytes (generate_hdr demo_hdr0 440 36), replicate 440 0x90, replicate 36 0x4B]"
    by (auto simp: t)
  with h(1-5) show ?thesis by blast
qed

subsection \<open>The order of the calls\<close>

text \<open>Every call appends one entry to the log, whether it succeeds or not. So the
  calls of a run that returns 0 are the same and in the same order in every state of the
  system and under every fault: only the bytes that each \<^verbatim>\<open>write\<close> transfers vary.\<close>

lemma sys_open_trace: "trace (snd (sys_open p fl w)) = trace w @ [EvOpen p fl]"
  by (simp add: sys_open_def log_call_def Let_def split: oflag.splits option.splits prod.splits)

lemma sys_lseek_trace: "trace (snd (sys_lseek fd off wh w)) = trace w @ [EvLseek fd wh]"
  by (simp add: sys_lseek_def log_call_def Let_def split: option.splits)

lemma sys_write_trace: "\<exists>d. trace (snd (sys_write fd b len w)) = trace w @ [EvWrite fd d]"
  by (simp add: sys_write_def log_call_def Let_def split: option.splits fault.splits)

lemma sys_mmap_trace: "trace (snd (sys_mmap len fd w)) = trace w @ [EvMmap fd len]"
  by (simp add: sys_mmap_def log_call_def Let_def split: option.splits prod.splits)

lemma sys_munmap_trace: "trace (snd (sys_munmap p len w)) = trace w @ [EvMunmap len]"
  by (simp add: sys_munmap_def log_call_def Let_def split: option.splits pointer.splits)

lemma output_append_trace:
  "\<exists>d. trace (snd (output_append ofd ifd sz w)) =
     trace w @ [EvMmap ifd (unat sz), EvWrite ofd d, EvMunmap (unat sz)]"
proof -
  obtain p w1 where m: "sys_mmap (unat sz) ifd w = (p, w1)" by fastforce
  have nn: "p \<noteq> NULL" using sys_mmap_dom [OF m] by auto
  have t1: "trace w1 = trace w @ [EvMmap ifd (unat sz)]"
    using sys_mmap_trace [of "unat sz" ifd w] m by simp
  obtain r2 w2 where wr: "sys_write ofd (Mapped p) (unat sz) w1 = (r2, w2)" by fastforce
  from sys_write_trace [of ofd "Mapped p" "unat sz" w1] wr
  obtain d where t2: "trace w2 = trace w1 @ [EvWrite ofd d]" by auto
  obtain r3 w3 where u: "sys_munmap p (unat sz) w2 = (r3, w3)" by fastforce
  have t3: "trace w3 = trace w2 @ [EvMunmap (unat sz)]"
    using sys_munmap_trace [of p "unat sz" w2] u by simp
  have "snd (output_append ofd ifd sz w) = w3"
    using m wr u nn by (simp add: output_append_def)
  with t1 t2 t3 show ?thesis by simp
qed

lemma generate_pad_trace:
  assumes "generate_pad ofd bfd kfd bs_sz k_sz w = Inr (r, w')"
  shows "\<exists>pad. trace w' = trace w @ pad @ [EvClose ofd, EvClose bfd, EvClose kfd] \<and>
      (pad = [] \<or> (\<exists>d. pad = [EvWrite ofd d]))"
proof -
  define t where "t = total_size bs_sz k_sz"
  define n where "n = unat (pad_size t)"
  define w1 where "w1 = snd (sys_write ofd (Mem (replicate n 0xEE)) n w)"
  from sys_write_trace [of ofd "Mem (replicate n 0xEE)" n w]
  obtain d where w1: "trace w1 = trace w @ [EvWrite ofd d]"
    unfolding w1_def by auto
  have c: "\<And>v. trace (close_all ofd bfd kfd (printf_wrote t (pad_size t) v))
      = trace v @ [EvClose ofd, EvClose bfd, EvClose kfd]"
    by (simp add: close_all_obs printf_wrote_def)
  from assms have "w' = close_all ofd bfd kfd (printf_wrote t (pad_size t) w1) \<or>
      w' = close_all ofd bfd kfd (printf_wrote t (pad_size t) w)"
    by (auto simp: generate_pad_def Let_def memset_def t_def [symmetric] n_def [symmetric]
        w1_def split: if_splits prod.splits)
  then show ?thesis
  proof
    assume "w' = close_all ofd bfd kfd (printf_wrote t (pad_size t) w1)"
    then have "trace w' = trace w @ [EvWrite ofd d] @ [EvClose ofd, EvClose bfd, EvClose kfd]"
      by (simp add: c w1)
    then show ?thesis by blast
  next
    assume "w' = close_all ofd bfd kfd (printf_wrote t (pad_size t) w)"
    then have "trace w' = trace w @ [] @ [EvClose ofd, EvClose bfd, EvClose kfd]"
      by (simp add: c)
    then show ?thesis by blast
  qed
qed

lemma generate_body_trace:
  assumes "generate_body hdr0 ofd bfd kfd w = Inr (r, w')"
  shows "\<exists>b k d1 d2 d3 pad. trace w' = trace w @
      [EvLseek bfd SEEK_END, EvLseek bfd SEEK_SET, EvLseek kfd SEEK_END, EvLseek kfd SEEK_SET,
       EvWrite ofd d1,
       EvMmap bfd b, EvWrite ofd d2, EvMunmap b,
       EvMmap kfd k, EvWrite ofd d3, EvMunmap k] @ pad @
      [EvClose ofd, EvClose bfd, EvClose kfd] \<and>
      (pad = [] \<or> (\<exists>d. pad = [EvWrite ofd d]))"
proof -
  obtain bs_sz w1 where s1: "sys_lseek bfd 0 SEEK_END w = (bs_sz, w1)" by fastforce
  obtain r2 w2 where s2: "sys_lseek bfd 0 SEEK_SET w1 = (r2, w2)" by fastforce
  obtain k_sz w3 where s3: "sys_lseek kfd 0 SEEK_END w2 = (k_sz, w3)" by fastforce
  obtain r4 w4 where s4: "sys_lseek kfd 0 SEEK_SET w3 = (r4, w4)" by fastforce
  define H where "H = hdr_bytes (generate_hdr hdr0 bs_sz k_sz)"
  obtain r5 w5 where s5: "sys_write ofd (Mem H) sizeof_hdr w4 = (r5, w5)" by fastforce
  obtain r6 w6 where s6: "output_append ofd bfd bs_sz w5 = (r6, w6)" by fastforce
  obtain r7 w7 where s7: "output_append ofd kfd k_sz w6 = (r7, w7)" by fastforce
  have t4: "trace w4 = trace w @
      [EvLseek bfd SEEK_END, EvLseek bfd SEEK_SET, EvLseek kfd SEEK_END, EvLseek kfd SEEK_SET]"
    using sys_lseek_trace [of bfd 0 SEEK_END w] sys_lseek_trace [of bfd 0 SEEK_SET w1]
      sys_lseek_trace [of kfd 0 SEEK_END w2] sys_lseek_trace [of kfd 0 SEEK_SET w3]
      s1 s2 s3 s4 by simp
  from sys_write_trace [of ofd "Mem H" sizeof_hdr w4] s5
  obtain d1 where t5: "trace w5 = trace w4 @ [EvWrite ofd d1]" by auto
  from output_append_trace [of ofd bfd bs_sz w5] s6
  obtain d2 where t6: "trace w6 = trace w5 @ [EvMmap bfd (unat bs_sz), EvWrite ofd d2, EvMunmap (unat bs_sz)]"
    by auto
  from output_append_trace [of ofd kfd k_sz w6] s7
  obtain d3 where t7: "trace w7 = trace w6 @ [EvMmap kfd (unat k_sz), EvWrite ofd d3, EvMunmap (unat k_sz)]"
    by auto
  have r: "r6 = 0" "r7 = 0"
    using output_append_dom [OF s6] output_append_dom [OF s7] by simp_all
  have run: "generate_body hdr0 ofd bfd kfd w = generate_pad ofd bfd kfd bs_sz k_sz w7"
    unfolding generate_body_def s1 s2 s3 s4 prod.case Let_def H_def [symmetric] s5 s6 s7
    using r by simp
  from generate_pad_trace [of ofd bfd kfd bs_sz k_sz w7 r w'] assms run
  obtain pad where t8: "trace w' = trace w7 @ pad @ [EvClose ofd, EvClose bfd, EvClose kfd]"
    and p: "pad = [] \<or> (\<exists>d. pad = [EvWrite ofd d])"
    by auto
  have "trace w' = trace w @
      [EvLseek bfd SEEK_END, EvLseek bfd SEEK_SET, EvLseek kfd SEEK_END, EvLseek kfd SEEK_SET,
       EvWrite ofd d1,
       EvMmap bfd (unat bs_sz), EvWrite ofd d2, EvMunmap (unat bs_sz),
       EvMmap kfd (unat k_sz), EvWrite ofd d3, EvMunmap (unat k_sz)] @ pad @
      [EvClose ofd, EvClose bfd, EvClose kfd]"
    by (simp add: t8 t7 t6 t5 t4)
  with p show ?thesis by blast
qed

lemma call_order_every_run:
  assumes "generate cfg hdr0 w = Inr (0, w')"
  shows "\<exists>bs_fd k_fd out_fd b k d1 d2 d3 pad. trace w' = trace w @
      [EvOpen (bootstrap_path cfg) O_RDONLY, EvOpen (kernel_path cfg) O_RDONLY,
       EvOpen (output_file cfg) O_WRONLY_CREAT_TRUNC,
       EvLseek bs_fd SEEK_END, EvLseek bs_fd SEEK_SET,
       EvLseek k_fd SEEK_END, EvLseek k_fd SEEK_SET,
       EvWrite out_fd d1,
       EvMmap bs_fd b, EvWrite out_fd d2, EvMunmap b,
       EvMmap k_fd k, EvWrite out_fd d3, EvMunmap k] @ pad @
      [EvClose out_fd, EvClose bs_fd, EvClose k_fd] \<and>
      (pad = [] \<or> (\<exists>d. pad = [EvWrite out_fd d]))"
proof -
  obtain bfd w1 where s1: "sys_open (bootstrap_path cfg) O_RDONLY w = (bfd, w1)" by fastforce
  obtain kfd w2 where s2: "sys_open (kernel_path cfg) O_RDONLY w1 = (kfd, w2)" by fastforce
  obtain ofd w3 where s3: "sys_open (output_file cfg) O_WRONLY_CREAT_TRUNC w2 = (ofd, w3)"
    by fastforce
  have t3: "trace w3 = trace w @
      [EvOpen (bootstrap_path cfg) O_RDONLY, EvOpen (kernel_path cfg) O_RDONLY,
       EvOpen (output_file cfg) O_WRONLY_CREAT_TRUNC]"
    using sys_open_trace [of "bootstrap_path cfg" O_RDONLY w]
      sys_open_trace [of "kernel_path cfg" O_RDONLY w1]
      sys_open_trace [of "output_file cfg" O_WRONLY_CREAT_TRUNC w2] s1 s2 s3 by simp
  from assms have body: "generate_body hdr0 ofd bfd kfd w3 = Inr (0, w')"
    by (simp add: generate_def s1 s2 s3 split: if_splits)
  from generate_body_trace [OF body]
  obtain b k d1 d2 d3 pad where t: "trace w' = trace w3 @
      [EvLseek bfd SEEK_END, EvLseek bfd SEEK_SET, EvLseek kfd SEEK_END, EvLseek kfd SEEK_SET,
       EvWrite ofd d1,
       EvMmap bfd b, EvWrite ofd d2, EvMunmap b,
       EvMmap kfd k, EvWrite ofd d3, EvMunmap k] @ pad @
      [EvClose ofd, EvClose bfd, EvClose kfd]"
    and p: "pad = [] \<or> (\<exists>d. pad = [EvWrite ofd d])"
    by blast
  have "trace w' = trace w @
      [EvOpen (bootstrap_path cfg) O_RDONLY, EvOpen (kernel_path cfg) O_RDONLY,
       EvOpen (output_file cfg) O_WRONLY_CREAT_TRUNC,
       EvLseek bfd SEEK_END, EvLseek bfd SEEK_SET,
       EvLseek kfd SEEK_END, EvLseek kfd SEEK_SET,
       EvWrite ofd d1,
       EvMmap bfd b, EvWrite ofd d2, EvMunmap b,
       EvMmap kfd k, EvWrite ofd d3, EvMunmap k] @ pad @
      [EvClose ofd, EvClose bfd, EvClose kfd]"
    by (simp add: t t3)
  with p show ?thesis by blast
qed

text \<open>
  On a run in which no system call fails (output path neither source, sources within
  \<^verbatim>\<open>off_t\<close>) each \<^verbatim>\<open>write\<close> also transfers all it was given, and the log is
  exactly: the three \<^verbatim>\<open>open\<close>s; the two \<^verbatim>\<open>lseek\<close>s on the bootstrap and the
  two on the kernel; one \<^verbatim>\<open>write\<close> of the header; \<^verbatim>\<open>mmap\<close>, one
  \<^verbatim>\<open>write\<close> of the whole bootstrap, \<^verbatim>\<open>munmap\<close>; the same for the kernel; one
  \<^verbatim>\<open>write\<close> of the fill bytes unless there are none; the three \<^verbatim>\<open>close\<close>s.
\<close>

lemma write_order:
  assumes src: "files w (bootstrap_path cfg) = Some bs" "files w (kernel_path cfg) = Some ks"
    and ne: "output_file cfg \<noteq> bootstrap_path cfg" "output_file cfg \<noteq> kernel_path cfg"
    and nf: "faults w = (\<lambda>n. NoFault)"
    and sz: "length bs < 2 ^ 63" "length ks < 2 ^ 63"
  shows "\<exists>bs_fd k_fd out_fd w'. generate cfg hdr0 w = Inr (0, w') \<and>
      bs_fd \<noteq> k_fd \<and> bs_fd \<noteq> out_fd \<and> k_fd \<noteq> out_fd \<and>
      trace w' = trace w @
        [EvOpen (bootstrap_path cfg) O_RDONLY, EvOpen (kernel_path cfg) O_RDONLY,
         EvOpen (output_file cfg) O_WRONLY_CREAT_TRUNC,
         EvLseek bs_fd SEEK_END, EvLseek bs_fd SEEK_SET,
         EvLseek k_fd SEEK_END, EvLseek k_fd SEEK_SET,
         EvWrite out_fd (hdr_bytes (generate_hdr hdr0 (of_nat (length bs)) (of_nat (length ks)))),
         EvMmap bs_fd (length bs), EvWrite out_fd bs, EvMunmap (length bs),
         EvMmap k_fd (length ks), EvWrite out_fd ks, EvMunmap (length ks)] @
        (if (36 + length bs + length ks) mod 512 = 0 then []
         else [EvWrite out_fd (replicate (512 - (36 + length bs + length ks) mod 512) 0xEE)]) @
        [EvClose out_fd, EvClose bs_fd, EvClose k_fd]"
proof -
  define H where "H = hdr_bytes (generate_hdr hdr0 (of_nat (length bs)) (of_nat (length ks)))"
  define P where "P = (512 - (36 + length bs + length ks) mod 512) mod 512"
  have Pi: "P = (if (36 + length bs + length ks) mod 512 = 0 then 0
         else 512 - (36 + length bs + length ks) mod 512)"
    unfolding P_def by (rule pad_count_if)
  from generate_ok [OF src ne nf sz H_def P_def]
  obtain nb nk no w' where run: "generate cfg hdr0 w = Inr (0, w')"
    and d: "nb \<noteq> nk" "nb \<noteq> no" "nk \<noteq> no"
    and t: "trace w' = trace w @
        [EvOpen (bootstrap_path cfg) O_RDONLY, EvOpen (kernel_path cfg) O_RDONLY,
         EvOpen (output_file cfg) O_WRONLY_CREAT_TRUNC,
         EvLseek (int nb) SEEK_END, EvLseek (int nb) SEEK_SET,
         EvLseek (int nk) SEEK_END, EvLseek (int nk) SEEK_SET,
         EvWrite (int no) H,
         EvMmap (int nb) (length bs), EvWrite (int no) bs, EvMunmap (length bs),
         EvMmap (int nk) (length ks), EvWrite (int no) ks, EvMunmap (length ks)] @
        (if 0 < P then [EvWrite (int no) (replicate P 0xEE)] else []) @
        [EvClose (int no), EvClose (int nb), EvClose (int nk)]"
    by blast
  have p: "(if 0 < P then [EvWrite (int no) (replicate P 0xEE)] else []) =
      (if (36 + length bs + length ks) mod 512 = 0 then []
         else [EvWrite (int no) (replicate (512 - (36 + length bs + length ks) mod 512) 0xEE)])"
    using Pi by (simp split: if_splits)
  have "int nb \<noteq> int nk \<and> int nb \<noteq> int no \<and> int nk \<noteq> int no" using d by simp
  with run t [unfolded p H_def] show ?thesis by blast
qed

lemma write_order_demo:
  "files (demo_world [1, 2, 3] [4, 5]) (bootstrap_path demo_cfg) = Some [1, 2, 3] \<and>
   files (demo_world [1, 2, 3] [4, 5]) (kernel_path demo_cfg) = Some [4, 5] \<and>
   output_file demo_cfg \<noteq> bootstrap_path demo_cfg \<and>
   output_file demo_cfg \<noteq> kernel_path demo_cfg \<and>
   faults (demo_world [1, 2, 3] [4, 5]) = (\<lambda>n. NoFault) \<and>
   (\<exists>bs_fd k_fd out_fd w'.
      generate demo_cfg demo_hdr0 (demo_world [1, 2, 3] [4, 5]) = Inr (0, w') \<and>
      trace w' =
        [EvOpen ''boot.bin'' O_RDONLY, EvOpen ''kernel.bin'' O_RDONLY,
         EvOpen ''kernel.img'' O_WRONLY_CREAT_TRUNC,
         EvLseek bs_fd SEEK_END, EvLseek bs_fd SEEK_SET,
         EvLseek k_fd SEEK_END, EvLseek k_fd SEEK_SET,
         EvWrite out_fd (hdr_bytes (generate_hdr demo_hdr0 3 2)),
         EvMmap bs_fd 3, EvWrite out_fd [1, 2, 3], EvMunmap 3,
         EvMmap k_fd 2, EvWrite out_fd [4, 5], EvMunmap 2,
         EvWrite out_fd (replicate 471 0xEE),
         EvClose out_fd, EvClose bs_fd, EvClose k_fd])"
proof -
  let ?w = "demo_world [1, 2, 3] [4, 5]"
  have h: "files ?w (bootstrap_path demo_cfg) = Some [1, 2, 3]"
    "files ?w (kernel_path demo_cfg) = Some [4, 5]"
    "output_file demo_cfg \<noteq> bootstrap_path demo_cfg"
    "output_file demo_cfg \<noteq> kernel_path demo_cfg"
    "faults ?w = (\<lambda>n. NoFault)"
    "length [1, 2, 3 :: byte] < 2 ^ 63" "length [4, 5 :: byte] < 2 ^ 63"
    by (simp_all add: demo_world_def demo_cfg_def)
  have t: "trace ?w = []" "output_file demo_cfg = ''kernel.img''"
    "bootstrap_path demo_cfg = ''boot.bin''" "kernel_path demo_cfg = ''kernel.bin''"
    by (simp_all add: demo_world_def demo_cfg_def)
  have l: "length [1, 2, 3 :: byte] = 3" "length [4, 5 :: byte] = 2" by simp_all
  note r = write_order [OF h, of demo_hdr0, unfolded t l]
  from r h(1-5) show ?thesis by auto
qed

subsection \<open>Where the payloads are\<close>

lemmas sys_defs = generate_def generate_body_def generate_pad_def output_append_def close_all_def
  sys_open_def sys_close_def sys_lseek_def sys_mmap_def sys_munmap_def sys_write_def
  buf_bytes_def store_at_def memset_def perror_def printf_wrote_def log_call_def next_fault_def
  fd_get_def slot_get_def total_size_def pad_size_def ALIGN_UP_def SECTOR_SIZE_def sizeof_hdr_def
  Let_def

text \<open>The run on a bootstrap of three bytes and a kernel of two, evaluated.\<close>

lemma demo_run_3_2:
  "generate demo_cfg demo_hdr0 (demo_world [1, 2, 3] [4, 5]) =
    Inr (0, \<lparr>files = [''boot.bin'' \<mapsto> [1, 2, 3], ''kernel.bin'' \<mapsto> [4, 5],
                     ''kernel.img'' \<mapsto> hdr_bytes (generate_hdr demo_hdr0 3 2) @ [1, 2, 3, 4, 5] @
                        replicate 471 0xEE],
            fdtab = [None, None, None], maps = [None], faults = (\<lambda>n. NoFault),
            trace = [EvOpen ''boot.bin'' O_RDONLY, EvOpen ''kernel.bin'' O_RDONLY,
              EvOpen ''kernel.img'' O_WRONLY_CREAT_TRUNC,
              EvLseek 0 SEEK_END, EvLseek 0 SEEK_SET, EvLseek 1 SEEK_END, EvLseek 1 SEEK_SET,
              EvWrite 2 (hdr_bytes (generate_hdr demo_hdr0 3 2)),
              EvMmap 0 3, EvWrite 2 [1, 2, 3], EvMunmap 3,
              EvMmap 1 2, EvWrite 2 [4, 5], EvMunmap 2,
              EvWrite 2 (replicate 471 0xEE),
              EvClose 2, EvClose 0, EvClose 1],
            stderr_log = [], stdout_log = [(41, 471)]\<rparr>)"
  by (simp add: sys_defs demo_world_def demo_cfg_def)

text \<open>On a run in which no system call fails (output path neither source, sources
  within \<^verbatim>\<open>off_t\<close>) the payloads lie directly behind the 36 bytes of the header:
  \<^verbatim>\<open>generate\<close> writes the header at offset 0 and appends, with no seek and no gap.\<close>

lemma payload_after_header:
  assumes src: "files w (bootstrap_path cfg) = Some bs" "files w (kernel_path cfg) = Some ks"
    and ne: "output_file cfg \<noteq> bootstrap_path cfg" "output_file cfg \<noteq> kernel_path cfg"
    and nf: "faults w = (\<lambda>n. NoFault)"
    and sz: "length bs < 2 ^ 63" "length ks < 2 ^ 63"
  shows "\<exists>w' c. generate cfg hdr0 w = Inr (0, w') \<and>
      files w' (output_file cfg) = Some c \<and>
      take (length bs) (drop 36 c) = bs \<and>
      take (length ks) (drop (36 + length bs) c) = ks"
proof -
  define H where "H = hdr_bytes (generate_hdr hdr0 (of_nat (length bs)) (of_nat (length ks)))"
  define P where "P = (512 - (36 + length bs + length ks) mod 512) mod 512"
  have lH: "length H = 36" unfolding H_def by simp
  from generate_ok [OF src ne nf sz H_def P_def]
  obtain w' where run: "generate cfg hdr0 w = Inr (0, w')"
    and f: "files w' = (files w)(output_file cfg \<mapsto> H @ bs @ ks @ replicate P 0xEE)"
    by blast
  have "take (length bs) (drop 36 (H @ bs @ ks @ replicate P 0xEE)) = bs"
    "take (length ks) (drop (36 + length bs) (H @ bs @ ks @ replicate P 0xEE)) = ks"
    using lH by simp_all
  with run f show ?thesis by simp
qed

lemma payload_after_header_demo:
  "files (demo_world [1, 2, 3] [4, 5]) (bootstrap_path demo_cfg) = Some [1, 2, 3] \<and>
   files (demo_world [1, 2, 3] [4, 5]) (kernel_path demo_cfg) = Some [4, 5] \<and>
   output_file demo_cfg \<noteq> bootstrap_path demo_cfg \<and>
   output_file demo_cfg \<noteq> kernel_path demo_cfg \<and>
   faults (demo_world [1, 2, 3] [4, 5]) = (\<lambda>n. NoFault) \<and>
   (\<exists>w' c. generate demo_cfg demo_hdr0 (demo_world [1, 2, 3] [4, 5]) = Inr (0, w') \<and>
      files w' ''kernel.img'' = Some c \<and>
      take 3 (drop 36 c) = [1, 2, 3] \<and> take 2 (drop 39 c) = [4, 5])"
proof -
  let ?w = "demo_world [1, 2, 3] [4, 5]"
  have h: "files ?w (bootstrap_path demo_cfg) = Some [1, 2, 3]"
    "files ?w (kernel_path demo_cfg) = Some [4, 5]"
    "output_file demo_cfg \<noteq> bootstrap_path demo_cfg"
    "output_file demo_cfg \<noteq> kernel_path demo_cfg"
    "faults ?w = (\<lambda>n. NoFault)"
    "length [1, 2, 3 :: byte] < 2 ^ 63" "length [4, 5 :: byte] < 2 ^ 63"
    by (simp_all add: demo_world_def demo_cfg_def)
  have t: "output_file demo_cfg = ''kernel.img''"
    by (simp add: demo_cfg_def)
  have l: "length [1, 2, 3 :: byte] = 3" "length [4, 5 :: byte] = 2" by simp_all
  note r = payload_after_header [OF h, of demo_hdr0, unfolded t l]
  from r h(1-5) show ?thesis by auto
qed

text \<open>
  Claim C3: the bytes of the output file at offsets \<open>bootstrap_offset\<close> to
  \<open>bootstrap_offset + b\<close>, with \<open>bootstrap_offset = 512\<close>, are the bootstrap
  source's full content, and the bytes at \<open>kernel_offset\<close> to \<open>kernel_offset + k\<close>
  are the kernel's. The code does not do this. With a bootstrap \<open>[1, 2, 3]\<close> and a
  kernel \<open>[4, 5]\<close> the whole output file is 512 bytes long, so no byte lies at offset
  512 or beyond; the bootstrap is at offset 36 and the kernel at offset 39, directly
  behind the header, while the header of the same file, whose \<open>bootstrap_off\<close> is
  documented as the offset of the bootstrap payload and assigned from
  \<^verbatim>\<open>MBR_END_OFFSET\<close>, stores the offset 515.
\<close>

theorem payload_not_at_512:
  "map_option length
     (files (snd (projr (generate demo_cfg demo_hdr0 (demo_world [1, 2, 3] [4, 5])))) ''kernel.img'')
     = Some 512 \<and>
   map_option (take 3 \<circ> drop 512)
     (files (snd (projr (generate demo_cfg demo_hdr0 (demo_world [1, 2, 3] [4, 5])))) ''kernel.img'')
     \<noteq> Some [1, 2, 3] \<and>
   map_option (take 3 \<circ> drop 36)
     (files (snd (projr (generate demo_cfg demo_hdr0 (demo_world [1, 2, 3] [4, 5])))) ''kernel.img'')
     = Some [1, 2, 3] \<and>
   map_option (take 2 \<circ> drop 39)
     (files (snd (projr (generate demo_cfg demo_hdr0 (demo_world [1, 2, 3] [4, 5])))) ''kernel.img'')
     = Some [4, 5] \<and>
   map_option (take 36)
     (files (snd (projr (generate demo_cfg demo_hdr0 (demo_world [1, 2, 3] [4, 5])))) ''kernel.img'')
     = Some (hdr_bytes (generate_hdr demo_hdr0 3 2)) \<and>
   bootstrap_off (generate_hdr demo_hdr0 3 2) = 515"
  unfolding demo_run_3_2 by (simp add: generate_hdr_fields)

subsection \<open>The length of the output and the sector count\<close>

lemma le_bytes_2: "le_bytes 2 v = [ucast v, ucast (drop_bit 8 v)]"
  by (simp add: numeral_2_eq_2)

text \<open>On a run in which no system call fails, the length of the output file is the
  total plus the fill count, a multiple of 512, and the fill count is below 512.\<close>

lemma output_length:
  assumes src: "files w (bootstrap_path cfg) = Some bs" "files w (kernel_path cfg) = Some ks"
    and ne: "output_file cfg \<noteq> bootstrap_path cfg" "output_file cfg \<noteq> kernel_path cfg"
    and nf: "faults w = (\<lambda>n. NoFault)"
    and sz: "length bs < 2 ^ 63" "length ks < 2 ^ 63"
  shows "\<exists>w' c P. generate cfg hdr0 w = Inr (0, w') \<and> files w' (output_file cfg) = Some c \<and>
      length c = 36 + length bs + length ks + P \<and> P < 512 \<and> length c mod 512 = 0 \<and>
      stdout_log w' = stdout_log w @ [(of_nat (36 + length bs + length ks), of_nat P)]"
proof -
  define H where "H = hdr_bytes (generate_hdr hdr0 (of_nat (length bs)) (of_nat (length ks)))"
  define n where "n = 36 + length bs + length ks"
  define P where "P = (512 - (36 + length bs + length ks) mod 512) mod 512"
  from generate_ok [OF src ne nf sz H_def P_def]
  obtain w' where run: "generate cfg hdr0 w = Inr (0, w')"
    and f: "files w' = (files w)(output_file cfg \<mapsto> H @ bs @ ks @ replicate P 0xEE)"
    and p: "stdout_log w' = stdout_log w @ [(of_nat (36 + length bs + length ks), of_nat P)]"
    by blast
  have P: "P = (if n mod 512 = 0 then 0 else 512 - n mod 512)"
    unfolding P_def n_def by (rule pad_count_if)
  have "(n + P) mod 512 = 0"
  proof (cases "n mod 512 = 0")
    case True
    with P show ?thesis by simp
  next
    case False
    have r: "n mod 512 < 512" by simp
    have "(n + P) mod 512 = (n mod 512 + P) mod 512" by (simp add: mod_add_left_eq)
    also from False P r have "n mod 512 + P = 512" by simp
    finally show ?thesis by simp
  qed
  then have m0: "(36 + length bs + length ks + P) mod 512 = 0" unfolding n_def .
  have pl: "P < 512" unfolding P_def by simp
  have lc: "length (H @ bs @ ks @ replicate P (0xEE::byte)) = 36 + length bs + length ks + P"
    unfolding H_def by simp
  have m: "length (H @ bs @ ks @ replicate P (0xEE::byte)) mod 512 = 0"
    unfolding lc by (rule m0)
  have fc: "files w' (output_file cfg) = Some (H @ bs @ ks @ replicate P 0xEE)"
    by (simp add: f)
  from run fc lc pl m p show ?thesis by (intro exI conjI) assumption+
qed

text \<open>
  Claim C4: the length of the output file is a multiple of 512, equals
  \<open>sector_count * 512\<close> for the \<open>sector_count\<close> stored in the header, and exceeds
  \<open>36 + b + k\<close> by a fill count in \<open>[0, 511]\<close>. The first and the last hold
  (\<open>output_length\<close>); the second does not. With a bootstrap of 440 bytes and a kernel
  of 65536 bytes the file is 129 * 512 bytes long and begins with the header bytes
  \<open>36, 0, 1, 0\<close>: a \<open>sector_count\<close> of 1, that is 512 bytes.
\<close>

theorem file_length_not_sector_count:
  "map_option length
     (files (snd (projr (generate demo_cfg hdr0
        (demo_world (replicate 440 0x90) (replicate 65536 0x4B))))) ''kernel.img'')
     = Some (129 * 512) \<and>
   map_option (take 4)
     (files (snd (projr (generate demo_cfg hdr0
        (demo_world (replicate 440 0x90) (replicate 65536 0x4B))))) ''kernel.img'')
     = Some [36, 0, 1, 0] \<and>
   unat (sector_count (generate_hdr hdr0 440 65536)) * 512 = 512"
proof -
  let ?w = "demo_world (replicate 440 0x90) (replicate 65536 0x4B)"
  have h: "files ?w (bootstrap_path demo_cfg) = Some (replicate 440 0x90)"
    "files ?w (kernel_path demo_cfg) = Some (replicate 65536 0x4B)"
    "output_file demo_cfg \<noteq> bootstrap_path demo_cfg"
    "output_file demo_cfg \<noteq> kernel_path demo_cfg"
    "faults ?w = (\<lambda>n. NoFault)"
    "length (replicate 440 (0x90::byte)) < 2 ^ 63" "length (replicate 65536 (0x4B::byte)) < 2 ^ 63"
    by (simp_all add: demo_world_def demo_cfg_def)
  have t: "output_file demo_cfg = ''kernel.img''"
    by (simp add: demo_cfg_def)
  have l: "length (replicate 440 (0x90::byte)) = 440" "length (replicate 65536 (0x4B::byte)) = 65536"
    by simp_all
  from generate_ok [OF h refl refl, of hdr0, unfolded t l]
  obtain w' where run: "generate demo_cfg hdr0 ?w = Inr (0, w')"
    and f: "files w' ''kernel.img'' =
      Some (hdr_bytes (generate_hdr hdr0 440 65536) @ replicate 440 0x90 @ replicate 65536 0x4B @
            replicate 36 0xEE)"
    by auto
  have s: "sector_count (generate_hdr hdr0 440 65536) = 1"
    "hdr_size (generate_hdr hdr0 440 65536) = 36"
    by (simp_all add: hdr_defs)
  have "take 4 (hdr_bytes (generate_hdr hdr0 440 65536)) = [36, 0, 1, 0]"
    by (simp add: hdr_bytes_def s le_bytes_2)
  then show ?thesis
    unfolding run by (simp add: f s)
qed

subsection \<open>A write that fails\<close>

lemma sys_write_written:
  "\<exists>d. written (trace (snd (sys_write fd b len w))) = written (trace w) @ [d]"
  by (simp add: sys_write_def log_call_def Let_def written_append
      split: option.splits fault.splits)

lemma sys_lseek_written:
  "written (trace (snd (sys_lseek fd off wh w))) = written (trace w)"
  by (simp add: sys_lseek_def log_call_def Let_def written_append split: option.splits)

lemma sys_close_written:
  "written (trace (snd (sys_close fd w))) = written (trace w)"
  by (simp add: sys_close_def log_call_def Let_def written_append split: option.splits)

lemma close_all_written:
  "written (trace (close_all a b c w)) = written (trace w)"
  by (simp add: close_all_def sys_close_written)

lemma output_append_written:
  "\<exists>d. written (trace (snd (output_append ofd ifd sz w))) = written (trace w) @ [d]"
proof -
  obtain p w1 where m: "sys_mmap (unat sz) ifd w = (p, w1)" by fastforce
  have nn: "p \<noteq> NULL" using sys_mmap_dom [OF m] by auto
  have t1: "written (trace w1) = written (trace w)"
    using m by (auto simp: sys_mmap_def log_call_def Let_def written_append
        split: if_splits option.splits prod.splits)
  obtain r2 w2 where wr: "sys_write ofd (Mapped p) (unat sz) w1 = (r2, w2)" by fastforce
  from sys_write_written [of ofd "Mapped p" "unat sz" w1] wr t1
  obtain d where t2: "written (trace w2) = written (trace w) @ [d]" by auto
  obtain r3 w3 where u: "sys_munmap p (unat sz) w2 = (r3, w3)" by fastforce
  have t3: "written (trace w3) = written (trace w2)"
    using u by (auto simp: sys_munmap_def log_call_def Let_def written_append
        split: pointer.splits option.splits)
  have "snd (output_append ofd ifd sz w) = w3"
    using m wr u nn by (simp add: output_append_def)
  with t2 t3 show ?thesis by simp
qed

lemma generate_pad_written:
  "generate_pad ofd bfd kfd bs_sz k_sz w = Inr (r, w') \<Longrightarrow>
     length (written (trace w)) \<le> length (written (trace w'))"
proof -
  assume a: "generate_pad ofd bfd kfd bs_sz k_sz w = Inr (r, w')"
  define t where "t = total_size bs_sz k_sz"
  define n where "n = unat (pad_size t)"
  define w1 where "w1 = snd (sys_write ofd (Mem (replicate n 0xEE)) n w)"
  from sys_write_written [of ofd "Mem (replicate n 0xEE)" n w]
  have w1: "length (written (trace w)) \<le> length (written (trace w1))"
    unfolding w1_def by auto
  have c: "\<And>v. written (trace (close_all ofd bfd kfd (printf_wrote t (pad_size t) v)))
      = written (trace v)"
    by (simp add: close_all_written printf_wrote_def)
  from a have "w' = close_all ofd bfd kfd (printf_wrote t (pad_size t) w1) \<or>
      w' = close_all ofd bfd kfd (printf_wrote t (pad_size t) w)"
    by (auto simp: generate_pad_def Let_def memset_def t_def [symmetric] n_def [symmetric]
        w1_def split: if_splits prod.splits)
  with c w1 show ?thesis by auto
qed

lemma generate_body_written:
  assumes "generate_body hdr0 ofd bfd kfd w = Inr (r, w')"
  shows "length (written (trace w)) + 3 \<le> length (written (trace w'))"
proof -
  obtain bs_sz w1 where s1: "sys_lseek bfd 0 SEEK_END w = (bs_sz, w1)" by fastforce
  obtain r2 w2 where s2: "sys_lseek bfd 0 SEEK_SET w1 = (r2, w2)" by fastforce
  obtain k_sz w3 where s3: "sys_lseek kfd 0 SEEK_END w2 = (k_sz, w3)" by fastforce
  obtain r4 w4 where s4: "sys_lseek kfd 0 SEEK_SET w3 = (r4, w4)" by fastforce
  define H where "H = hdr_bytes (generate_hdr hdr0 bs_sz k_sz)"
  obtain r5 w5 where s5: "sys_write ofd (Mem H) sizeof_hdr w4 = (r5, w5)" by fastforce
  obtain r6 w6 where s6: "output_append ofd bfd bs_sz w5 = (r6, w6)" by fastforce
  obtain r7 w7 where s7: "output_append ofd kfd k_sz w6 = (r7, w7)" by fastforce
  have t4: "written (trace w4) = written (trace w)"
    using sys_lseek_written [of bfd 0 SEEK_END w] sys_lseek_written [of bfd 0 SEEK_SET w1]
      sys_lseek_written [of kfd 0 SEEK_END w2] sys_lseek_written [of kfd 0 SEEK_SET w3]
      s1 s2 s3 s4 by simp
  have t5: "length (written (trace w5)) = length (written (trace w)) + 1"
    using sys_write_written [of ofd "Mem H" sizeof_hdr w4] s5 t4 by auto
  have t6: "length (written (trace w6)) = length (written (trace w)) + 2"
    using output_append_written [of ofd bfd bs_sz w5] s6 t5 by auto
  have t7: "length (written (trace w7)) = length (written (trace w)) + 3"
    using output_append_written [of ofd kfd k_sz w6] s7 t6 by auto
  have r: "r6 = 0" "r7 = 0"
    using output_append_dom [OF s6] output_append_dom [OF s7] by simp_all
  have run: "generate_body hdr0 ofd bfd kfd w = generate_pad ofd bfd kfd bs_sz k_sz w7"
    unfolding generate_body_def s1 s2 s3 s4 prod.case Let_def H_def [symmetric] s5 s6 s7
    using r by simp
  from generate_pad_written [of ofd bfd kfd bs_sz k_sz w7 r w'] assms run t7
  show ?thesis by simp
qed

lemma demo_run_header_write_fails:
  "generate demo_cfg demo_hdr0
     ((demo_world [1, 2, 3] [4, 5])\<lparr>faults := (\<lambda>n. if n = 7 then Fail else NoFault)\<rparr>) =
    Inr (0, \<lparr>files = [''boot.bin'' \<mapsto> [1, 2, 3], ''kernel.bin'' \<mapsto> [4, 5],
                     ''kernel.img'' \<mapsto> [1, 2, 3, 4, 5] @ replicate 471 0xEE],
            fdtab = [None, None, None], maps = [None],
            faults = (\<lambda>n. if n = 7 then Fail else NoFault),
            trace = [EvOpen ''boot.bin'' O_RDONLY, EvOpen ''kernel.bin'' O_RDONLY,
              EvOpen ''kernel.img'' O_WRONLY_CREAT_TRUNC,
              EvLseek 0 SEEK_END, EvLseek 0 SEEK_SET, EvLseek 1 SEEK_END, EvLseek 1 SEEK_SET,
              EvWrite 2 [],
              EvMmap 0 3, EvWrite 2 [1, 2, 3], EvMunmap 3,
              EvMmap 1 2, EvWrite 2 [4, 5], EvMunmap 2,
              EvWrite 2 (replicate 471 0xEE),
              EvClose 2, EvClose 0, EvClose 1],
            stderr_log = [], stdout_log = [(41, 471)]\<rparr>)"
  by (simp add: sys_defs demo_world_def demo_cfg_def)

text \<open>
  \<^verbatim>\<open>generate\<close> inspects the result of no \<^verbatim>\<open>write\<close>, and
  \<^verbatim>\<open>output_append\<close>, whose result it does test, drops the result of its
  \<^verbatim>\<open>write\<close> as well. So once the three files are open, whatever the fault oracle
  does to the later calls, the writes of the header, of the bootstrap and of the kernel
  are issued, the result is 0 and nothing is printed on the standard error.
\<close>

lemma write_failure_ignored:
  assumes src: "files w (bootstrap_path cfg) = Some bs" "files w (kernel_path cfg) = Some ks"
    and op: "faults w (length (trace w)) = NoFault" "faults w (Suc (length (trace w))) = NoFault"
      "faults w (Suc (Suc (length (trace w)))) = NoFault"
  shows "\<exists>w'. generate cfg hdr0 w = Inr (0, w') \<and> stderr_log w' = stderr_log w \<and>
      length (written (trace w)) + 3 \<le> length (written (trace w'))"
proof -
  have n0: "next_fault w = NoFault" by (simp add: next_fault_def op)
  from sys_open_rd_ok [OF src(1) n0]
  obtain nb w1 where s1: "sys_open (bootstrap_path cfg) O_RDONLY w = (int nb, w1)"
    and f1: "files w1 = files w" and t1: "trace w1 = trace w @ [EvOpen (bootstrap_path cfg) O_RDONLY]"
    and n1: "faults w1 = faults w" and e1: "stderr_log w1 = stderr_log w"
    by blast
  have a1: "files w1 (kernel_path cfg) = Some ks" "next_fault w1 = NoFault"
    using src op by (simp_all add: f1 n1 t1 next_fault_def)
  from sys_open_rd_ok [OF a1]
  obtain nk w2 where s2: "sys_open (kernel_path cfg) O_RDONLY w1 = (int nk, w2)"
    and t2: "trace w2 = trace w1 @ [EvOpen (kernel_path cfg) O_RDONLY]"
    and n2: "faults w2 = faults w1" and e2: "stderr_log w2 = stderr_log w1"
    by blast
  have a2: "next_fault w2 = NoFault"
    using op by (simp add: n2 n1 t2 t1 next_fault_def)
  from sys_open_wr_ok [OF a2, of "output_file cfg"]
  obtain no w3 where s3: "sys_open (output_file cfg) O_WRONLY_CREAT_TRUNC w2 = (int no, w3)"
    and t3: "trace w3 = trace w2 @ [EvOpen (output_file cfg) O_WRONLY_CREAT_TRUNC]"
    and e3: "stderr_log w3 = stderr_log w2"
    by blast
  from generate_body_gen [of "int no" "int nb" "int nk" hdr0 w3]
  obtain w' where body: "generate_body hdr0 (int no) (int nb) (int nk) w3 = Inr (0, w')"
    and e4: "stderr_log w' = stderr_log w3"
    by auto
  have run: "generate cfg hdr0 w = Inr (0, w')"
    using body by (simp add: generate_def s1 s2 s3)
  have "written (trace w3) = written (trace w)"
    by (simp add: t3 t2 t1 written_append)
  with generate_body_written [OF body] run e4 e3 e2 e1 show ?thesis by simp
qed

lemma write_failure_ignored_demo:
  "files ((demo_world [1, 2, 3] [4, 5])\<lparr>faults := (\<lambda>n. if n = 7 then Fail else NoFault)\<rparr>)
     (bootstrap_path demo_cfg) = Some [1, 2, 3] \<and>
   files ((demo_world [1, 2, 3] [4, 5])\<lparr>faults := (\<lambda>n. if n = 7 then Fail else NoFault)\<rparr>)
     (kernel_path demo_cfg) = Some [4, 5] \<and>
   (\<exists>w'. generate demo_cfg demo_hdr0
       ((demo_world [1, 2, 3] [4, 5])\<lparr>faults := (\<lambda>n. if n = 7 then Fail else NoFault)\<rparr>)
       = Inr (0, w') \<and> stderr_log w' = [] \<and> 3 \<le> length (written (trace w')))"
proof -
  let ?w = "(demo_world [1, 2, 3] [4, 5])\<lparr>faults := (\<lambda>n. if n = 7 then Fail else NoFault)\<rparr>"
  have h: "files ?w (bootstrap_path demo_cfg) = Some [1, 2, 3]"
    "files ?w (kernel_path demo_cfg) = Some [4, 5]"
    "faults ?w (length (trace ?w)) = NoFault" "faults ?w (Suc (length (trace ?w))) = NoFault"
    "faults ?w (Suc (Suc (length (trace ?w)))) = NoFault"
    by (simp_all add: demo_world_def demo_cfg_def)
  have t: "trace ?w = []" "stderr_log ?w = []" by (simp_all add: demo_world_def)
  from write_failure_ignored [OF h, of demo_hdr0] h(1,2) show ?thesis
    unfolding t by simp
qed

text \<open>The same run, with the \<^verbatim>\<open>write\<close> of the bootstrap (the tenth call) cut short
  after one byte.\<close>

lemma demo_run_short_write:
  "generate demo_cfg demo_hdr0
     ((demo_world [1, 2, 3] [4, 5])\<lparr>faults := (\<lambda>n. if n = 9 then Short 1 else NoFault)\<rparr>) =
    Inr (0, \<lparr>files = [''boot.bin'' \<mapsto> [1, 2, 3], ''kernel.bin'' \<mapsto> [4, 5],
                     ''kernel.img'' \<mapsto> hdr_bytes (generate_hdr demo_hdr0 3 2) @ [1, 4, 5] @
                        replicate 471 0xEE],
            fdtab = [None, None, None], maps = [None],
            faults = (\<lambda>n. if n = 9 then Short 1 else NoFault),
            trace = [EvOpen ''boot.bin'' O_RDONLY, EvOpen ''kernel.bin'' O_RDONLY,
              EvOpen ''kernel.img'' O_WRONLY_CREAT_TRUNC,
              EvLseek 0 SEEK_END, EvLseek 0 SEEK_SET, EvLseek 1 SEEK_END, EvLseek 1 SEEK_SET,
              EvWrite 2 (hdr_bytes (generate_hdr demo_hdr0 3 2)),
              EvMmap 0 3, EvWrite 2 [1], EvMunmap 3,
              EvMmap 1 2, EvWrite 2 [4, 5], EvMunmap 2,
              EvWrite 2 (replicate 471 0xEE),
              EvClose 2, EvClose 0, EvClose 1],
            stderr_log = [], stdout_log = [(41, 471)]\<rparr>)"
  by (simp add: sys_defs demo_world_def demo_cfg_def)

text \<open>
  Claim C7: whenever a write to the sink fails at any stage (header, bootstrap copy,
  kernel copy, padding), the operation fails and reports the stage, rather than
  continuing or reporting success. The code does not do this. When the \<^verbatim>\<open>write\<close>
  of the header (the eighth call) fails and transfers nothing, \<^verbatim>\<open>generate\<close> goes
  on to write the payloads and the fill bytes, prints its report of 41 bytes written
  and 471 padded, prints nothing on the standard error and returns 0: the output file
  is the five payload bytes and 471 fill bytes, with no header.
\<close>

theorem write_failure_unreported:
  "fst (projr (generate demo_cfg demo_hdr0
     ((demo_world [1, 2, 3] [4, 5])\<lparr>faults := (\<lambda>n. if n = 7 then Fail else NoFault)\<rparr>))) = 0 \<and>
   stderr_log (snd (projr (generate demo_cfg demo_hdr0
     ((demo_world [1, 2, 3] [4, 5])\<lparr>faults := (\<lambda>n. if n = 7 then Fail else NoFault)\<rparr>)))) = [] \<and>
   stdout_log (snd (projr (generate demo_cfg demo_hdr0
     ((demo_world [1, 2, 3] [4, 5])\<lparr>faults := (\<lambda>n. if n = 7 then Fail else NoFault)\<rparr>)))) =
     [(41, 471)] \<and>
   written (trace (snd (projr (generate demo_cfg demo_hdr0
     ((demo_world [1, 2, 3] [4, 5])\<lparr>faults := (\<lambda>n. if n = 7 then Fail else NoFault)\<rparr>))))) =
     [Nil, [1, 2, 3], [4, 5], replicate 471 0xEE] \<and>
   files (snd (projr (generate demo_cfg demo_hdr0
     ((demo_world [1, 2, 3] [4, 5])\<lparr>faults := (\<lambda>n. if n = 7 then Fail else NoFault)\<rparr>))))
     ''kernel.img'' = Some ([1, 2, 3, 4, 5] @ replicate 471 0xEE)"
  unfolding demo_run_header_write_fails by simp

text \<open>
  Claim C6: on every successful run the sink receives exactly one header block, then all
  bootstrap bytes in order, then all kernel bytes in order, then the fill bytes, with
  nothing in between; each source is measured once before any copy and read exactly
  once. The calls are made in that order and number on every run that returns 0
  (\<open>call_order_every_run\<close>), but the sink does not always receive the bytes. When
  the \<^verbatim>\<open>write\<close> of the bootstrap transfers one byte of three, \<^verbatim>\<open>generate\<close>
  neither retries nor fails: it returns 0, prints its report of 41 bytes written and
  nothing on the standard error, and the sink has received the header, the single
  bootstrap byte 1, the kernel and the fill bytes, 510 bytes in all.
\<close>

theorem short_write_run_succeeds:
  "fst (projr (generate demo_cfg demo_hdr0
     ((demo_world [1, 2, 3] [4, 5])\<lparr>faults := (\<lambda>n. if n = 9 then Short 1 else NoFault)\<rparr>))) = 0 \<and>
   stderr_log (snd (projr (generate demo_cfg demo_hdr0
     ((demo_world [1, 2, 3] [4, 5])\<lparr>faults := (\<lambda>n. if n = 9 then Short 1 else NoFault)\<rparr>)))) = [] \<and>
   stdout_log (snd (projr (generate demo_cfg demo_hdr0
     ((demo_world [1, 2, 3] [4, 5])\<lparr>faults := (\<lambda>n. if n = 9 then Short 1 else NoFault)\<rparr>)))) =
     [(41, 471)] \<and>
   written (trace (snd (projr (generate demo_cfg demo_hdr0
     ((demo_world [1, 2, 3] [4, 5])\<lparr>faults := (\<lambda>n. if n = 9 then Short 1 else NoFault)\<rparr>))))) =
     [hdr_bytes (generate_hdr demo_hdr0 3 2), [1], [4, 5], replicate 471 0xEE] \<and>
   files (snd (projr (generate demo_cfg demo_hdr0
     ((demo_world [1, 2, 3] [4, 5])\<lparr>faults := (\<lambda>n. if n = 9 then Short 1 else NoFault)\<rparr>))))
     ''kernel.img'' =
     Some (hdr_bytes (generate_hdr demo_hdr0 3 2) @ [1, 4, 5] @ replicate 471 0xEE) \<and>
   map_option length (files (snd (projr (generate demo_cfg demo_hdr0
     ((demo_world [1, 2, 3] [4, 5])\<lparr>faults := (\<lambda>n. if n = 9 then Short 1 else NoFault)\<rparr>))))
     ''kernel.img'') = Some 510"
  unfolding demo_run_short_write by simp

subsection \<open>A source that cannot be opened\<close>

text \<open>When the bootstrap cannot be opened, \<^verbatim>\<open>generate\<close> makes no other call,
  reports \<^verbatim>\<open>open[bs]\<close> and returns -1. When the kernel cannot be opened, it closes
  the bootstrap, touches no file and returns -1, and reports nothing.\<close>

lemma bootstrap_open_fails:
  assumes "fst (sys_open (bootstrap_path cfg) O_RDONLY w) < 0"
  shows "generate cfg hdr0 w =
     Inr (- 1, w\<lparr>trace := trace w @ [EvOpen (bootstrap_path cfg) O_RDONLY],
                 stderr_log := stderr_log w @ [''open[bs]'']\<rparr>)"
proof -
  obtain n t where a: "slot_alloc (fdtab w) \<lparr>of_path = bootstrap_path cfg, of_pos = 0, of_wr = False\<rparr> = (n, t)"
    by fastforce
  from assms a have "sys_open (bootstrap_path cfg) O_RDONLY w =
      (- 1, w\<lparr>trace := trace w @ [EvOpen (bootstrap_path cfg) O_RDONLY]\<rparr>)"
    by (auto simp: sys_open_def log_call_def Let_def split: if_splits option.splits)
  then show ?thesis by (simp add: generate_def perror_def)
qed

lemma kernel_open_fails:
  assumes b: "sys_open (bootstrap_path cfg) O_RDONLY w = (bs_fd, w1)" "0 \<le> bs_fd"
    and k: "fst (sys_open (kernel_path cfg) O_RDONLY w1) < 0"
  shows "\<exists>w'. generate cfg hdr0 w = Inr (- 1, w') \<and> files w' = files w \<and>
     stderr_log w' = stderr_log w \<and> stdout_log w' = stdout_log w \<and>
     trace w' = trace w @ [EvOpen (bootstrap_path cfg) O_RDONLY,
                           EvOpen (kernel_path cfg) O_RDONLY, EvClose bs_fd]"
proof -
  obtain n t where a: "slot_alloc (fdtab w1) \<lparr>of_path = kernel_path cfg, of_pos = 0, of_wr = False\<rparr> = (n, t)"
    by fastforce
  from k a have s2: "sys_open (kernel_path cfg) O_RDONLY w1 =
      (- 1, w1\<lparr>trace := trace w1 @ [EvOpen (kernel_path cfg) O_RDONLY]\<rparr>)"
    by (auto simp: sys_open_def log_call_def Let_def split: if_splits option.splits)
  obtain m u where c: "slot_alloc (fdtab w) \<lparr>of_path = bootstrap_path cfg, of_pos = 0, of_wr = False\<rparr> = (m, u)"
    by fastforce
  from b c have w1: "files w1 = files w" "stderr_log w1 = stderr_log w" "stdout_log w1 = stdout_log w"
    "trace w1 = trace w @ [EvOpen (bootstrap_path cfg) O_RDONLY]"
    by (auto simp: sys_open_def log_call_def Let_def split: if_splits option.splits)
  have run: "generate cfg hdr0 w =
      Inr (- 1, snd (sys_close bs_fd (w1\<lparr>trace := trace w1 @ [EvOpen (kernel_path cfg) O_RDONLY]\<rparr>)))"
    using b by (simp add: generate_def s2)
  show ?thesis unfolding run using w1 by (simp add: sys_close_obs)
qed

text \<open>
  Claim C8: if either source cannot be opened, the operation returns an error that
  identifies which source failed, stops at once, does not create or truncate the sink,
  and releases a source already opened. The code stops, leaves the sink alone and
  releases the bootstrap (\<open>kernel_open_fails\<close>), but it does
  not identify the kernel: with the kernel file missing the result is -1 and the
  standard error stays empty, while with the bootstrap file missing the result is the
  same -1 and the standard error names \<^verbatim>\<open>open[bs]\<close>.
\<close>

theorem kernel_open_failure_silent:
  "generate demo_cfg hdr0 ((demo_world [1, 2, 3] [4, 5])\<lparr>files := [''boot.bin'' \<mapsto> [1, 2, 3]]\<rparr>) =
     Inr (- 1, \<lparr>files = [''boot.bin'' \<mapsto> [1, 2, 3]], fdtab = [None], maps = [],
                faults = (\<lambda>n. NoFault),
                trace = [EvOpen ''boot.bin'' O_RDONLY, EvOpen ''kernel.bin'' O_RDONLY, EvClose 0],
                stderr_log = [], stdout_log = []\<rparr>) \<and>
   generate demo_cfg hdr0 ((demo_world [1, 2, 3] [4, 5])\<lparr>files := [''kernel.bin'' \<mapsto> [4, 5]]\<rparr>) =
     Inr (- 1, \<lparr>files = [''kernel.bin'' \<mapsto> [4, 5]], fdtab = [], maps = [],
                faults = (\<lambda>n. NoFault),
                trace = [EvOpen ''boot.bin'' O_RDONLY],
                stderr_log = [''open[bs]''], stdout_log = []\<rparr>)"
  by (simp add: sys_defs demo_world_def demo_cfg_def)

end
